theory Spec2Isabelle
  imports Complex_Main "HOL-Library.AList"
begin

section \<open>Python library functions used by the two scripts\<close>

text \<open>
  The scripts \<^verbatim>\<open>do_RMsynth_3D.py\<close> and \<^verbatim>\<open>do_RMclean_3D.py\<close> call a few functions of the
  Python standard library. \<^verbatim>\<open>os.path.split\<close> (the POSIX flavour) is
  \<^verbatim>\<open>
    i = p.rfind('/') + 1
    head, tail = p[:i], p[i:]
    if head and head != '/'*len(head):
        head = head.rstrip('/')
    return head, tail
  \<close>
  \<^verbatim>\<open>os.path.exists\<close> reads the file system, which is a parameter \<open>ex\<close> of the models below.
\<close>

fun rfind_slash_plus1 :: "string \<Rightarrow> nat" where
  "rfind_slash_plus1 [] = 0"
| "rfind_slash_plus1 (c # cs) =
     (let r = rfind_slash_plus1 cs
      in if 0 < r then Suc r else if c = CHR ''/'' then 1 else 0)"

definition rstrip_slash :: "string \<Rightarrow> string" where
  "rstrip_slash s = rev (dropWhile (\<lambda>c. c = CHR ''/'') (rev s))"

definition os_path_split :: "string \<Rightarrow> string \<times> string" where
  "os_path_split p =
     (let i = rfind_slash_plus1 p;
          head = take i p;
          tail = drop i p
      in if head \<noteq> [] \<and> \<not> list_all (\<lambda>c. c = CHR ''/'') head
         then (rstrip_slash head, tail)
         else (head, tail))"

definition missing_file_message :: "string \<Rightarrow> string" where
  \<comment> \<open>\<^verbatim>\<open>"File does not exist: '%s'." % f\<close>\<close>
  "missing_file_message f = ''File does not exist: '' @ [CHR 0x27] @ f @ [CHR 0x27] @ ''.''"

text \<open>
  The sanity check of both scripts is the loop
  \<^verbatim>\<open>
    for f in <list of paths>:
        if not os.path.exists(f):
            print("File does not exist: '%s'." % f)
            sys.exit()
  \<close>
  It stops at the first path that does not exist; \<open>None\<close> means the loop ran to its end.
\<close>

fun sanity_checks :: "(string \<Rightarrow> bool) \<Rightarrow> string list \<Rightarrow> string option" where
  "sanity_checks ex [] = None"
| "sanity_checks ex (f # fs) =
     (if \<not> ex f then Some (missing_file_message f) else sanity_checks ex fs)"


section \<open>The command line of do\_RMsynth\_3D.py\<close>

text \<open>
  A command line is modelled after tokenisation and type conversion: the positional
  arguments as a list of strings and the options as a list of typed values, in the order
  they were given. \<^verbatim>\<open>argparse\<close> starts from the defaults and lets every occurrence of an
  option overwrite the attribute it stores to; a positional argument declared with
  \<^verbatim>\<open>nargs=1\<close> is stored as a one-element list. A wrong number of positional arguments is
  a usage error of \<^verbatim>\<open>argparse\<close>.
\<close>

record synth_args =
  fitsQ :: "string list"
  fitsU :: "string list"
  freqFile :: "string list"
  fitsI :: "string option"
  noiseFile :: "string option"
  weightType :: string
  fitRMSF :: bool
  phiMax_radm2 :: "real option"
  dPhi_radm2 :: "real option"
  prefixOut :: string
  nSamples :: real
  write_seperate_FDF :: bool

datatype synth_option =
    Synth_i string | Synth_n string | Synth_w string | Synth_t
  | Synth_l real | Synth_d real | Synth_o string | Synth_s real | Synth_f

definition synth_defaults :: "string \<Rightarrow> string \<Rightarrow> string \<Rightarrow> synth_args" where
  "synth_defaults q u fr =
     \<lparr>fitsQ = [q], fitsU = [u], freqFile = [fr], fitsI = None, noiseFile = None,
      weightType = ''uniform'', fitRMSF = False, phiMax_radm2 = None, dPhi_radm2 = None,
      prefixOut = '''', nSamples = 5, write_seperate_FDF = False\<rparr>"

fun synth_store :: "synth_args \<Rightarrow> synth_option \<Rightarrow> synth_args" where
  "synth_store a (Synth_i p) = a\<lparr>fitsI := Some p\<rparr>"
| "synth_store a (Synth_n p) = a\<lparr>noiseFile := Some p\<rparr>"
| "synth_store a (Synth_w s) = a\<lparr>weightType := s\<rparr>"
| "synth_store a Synth_t = a\<lparr>fitRMSF := True\<rparr>"
| "synth_store a (Synth_l x) = a\<lparr>phiMax_radm2 := Some x\<rparr>"
| "synth_store a (Synth_d x) = a\<lparr>dPhi_radm2 := Some x\<rparr>"
| "synth_store a (Synth_o s) = a\<lparr>prefixOut := s\<rparr>"
| "synth_store a (Synth_s x) = a\<lparr>nSamples := x\<rparr>"
| "synth_store a Synth_f = a\<lparr>write_seperate_FDF := True\<rparr>"

fun synth_parse_args :: "string list \<Rightarrow> synth_option list \<Rightarrow> synth_args option" where
  "synth_parse_args [q, u, fr] opts = Some (foldl synth_store (synth_defaults q u fr) opts)"
| "synth_parse_args _ opts = None"

text \<open>
  The keyword arguments of the call \<^verbatim>\<open>cl.run_rmsynth(...)\<close>. The function itself lives in
  the module \<^verbatim>\<open>cl_RMsynth_3D\<close>; the model of \<^verbatim>\<open>main\<close> ends with the call.
\<close>

record run_rmsynth_call =
  call_fitsQ :: string
  call_fitsU :: string
  call_freqFile :: string
  call_fitsI :: "string option"
  call_noiseFile :: "string option"
  call_phiMax_radm2 :: "real option"
  call_dPhi_radm2 :: "real option"
  call_nSamples :: real
  call_weightType :: string
  call_prefixOut :: string
  call_outDir :: string
  call_fitRMSF :: bool
  call_nBits :: nat
  call_write_seperate_FDF :: bool

datatype 'call main_result =
    Usage_error
  | Sys_exit string
  | Calls 'call

definition synth_call_of :: "synth_args \<Rightarrow> run_rmsynth_call" where
  "synth_call_of a =
     \<lparr>call_fitsQ = hd (fitsQ a), call_fitsU = hd (fitsU a), call_freqFile = hd (freqFile a),
      call_fitsI = fitsI a, call_noiseFile = noiseFile a,
      call_phiMax_radm2 = phiMax_radm2 a, call_dPhi_radm2 = dPhi_radm2 a,
      call_nSamples = nSamples a, call_weightType = weightType a,
      call_prefixOut = prefixOut a, call_outDir = fst (os_path_split (hd (fitsQ a))),
      call_fitRMSF = fitRMSF a, call_nBits = 32,
      call_write_seperate_FDF = write_seperate_FDF a\<rparr>"

definition do_RMsynth_3D_main ::
  "(string \<Rightarrow> bool) \<Rightarrow> string list \<Rightarrow> synth_option list \<Rightarrow> run_rmsynth_call main_result" where
  "do_RMsynth_3D_main ex positional opts =
     (case synth_parse_args positional opts of
        None \<Rightarrow> Usage_error
      | Some args \<Rightarrow>
          (case sanity_checks ex (fitsQ args @ fitsU args) of
             Some msg \<Rightarrow> Sys_exit msg
           | None \<Rightarrow> Calls (synth_call_of args)))"

section \<open>The command line of do\_RMclean\_3D.py\<close>

text \<open>
  The option \<^verbatim>\<open>-c\<close> is declared with \<^verbatim>\<open>type=float, nargs=1, default=1.0\<close>: when it is
  given, \<^verbatim>\<open>argparse\<close> stores the one-element list of the converted value; when it is not,
  the attribute keeps the default as it was written, the float \<open>1.0\<close>. The value of
  \<^verbatim>\<open>args.cutoff_mJy\<close> is therefore either a float or a list of floats.
\<close>

datatype cutoff_arg = Cutoff_scalar real | Cutoff_list "real list"

record clean_args =
  fitsFDF :: "string list"
  fitsRMSF :: "string list"
  cutoff_mJy :: cutoff_arg
  maxIter :: int
  gain :: real
  clean_prefixOut :: string

datatype clean_option = Clean_c real | Clean_n int | Clean_g real | Clean_o string

definition clean_defaults :: "string \<Rightarrow> string \<Rightarrow> clean_args" where
  "clean_defaults fdf rmsf =
     \<lparr>fitsFDF = [fdf], fitsRMSF = [rmsf], cutoff_mJy = Cutoff_scalar 1.0,
      maxIter = 1000, gain = 0.1, clean_prefixOut = ''''\<rparr>"

fun clean_store :: "clean_args \<Rightarrow> clean_option \<Rightarrow> clean_args" where
  "clean_store a (Clean_c x) = a\<lparr>cutoff_mJy := Cutoff_list [x]\<rparr>"
| "clean_store a (Clean_n n) = a\<lparr>maxIter := n\<rparr>"
| "clean_store a (Clean_g x) = a\<lparr>gain := x\<rparr>"
| "clean_store a (Clean_o s) = a\<lparr>clean_prefixOut := s\<rparr>"

fun clean_parse_args :: "string list \<Rightarrow> clean_option list \<Rightarrow> clean_args option" where
  "clean_parse_args [fdf, rmsf] opts = Some (foldl clean_store (clean_defaults fdf rmsf) opts)"
| "clean_parse_args _ opts = None"

text \<open>The keyword arguments of the call \<^verbatim>\<open>run_rmclean(...)\<close> that ends \<^verbatim>\<open>main\<close>.\<close>

record run_rmclean_call =
  arg_fitsFDF :: string
  arg_fitsRMSF :: string
  arg_cutoff_mJy :: cutoff_arg
  arg_maxIter :: int
  arg_gain :: real
  arg_prefixOut :: string
  arg_outDir :: string
  arg_nBits :: nat

definition clean_call_of :: "clean_args \<Rightarrow> run_rmclean_call" where
  "clean_call_of a =
     \<lparr>arg_fitsFDF = hd (fitsFDF a), arg_fitsRMSF = hd (fitsRMSF a),
      arg_cutoff_mJy = cutoff_mJy a, arg_maxIter = maxIter a, arg_gain = gain a,
      arg_prefixOut = clean_prefixOut a,
      arg_outDir = fst (os_path_split (hd (fitsFDF a))), arg_nBits = 32\<rparr>"

definition do_RMclean_3D_main ::
  "(string \<Rightarrow> bool) \<Rightarrow> string list \<Rightarrow> clean_option list \<Rightarrow> run_rmclean_call main_result" where
  "do_RMclean_3D_main ex positional opts =
     (case clean_parse_args positional opts of
        None \<Rightarrow> Usage_error
      | Some args \<Rightarrow>
          (case sanity_checks ex (fitsFDF args @ fitsRMSF args) of
             Some msg \<Rightarrow> Sys_exit msg
           | None \<Rightarrow> Calls (clean_call_of args)))"


section \<open>Arrays of numpy\<close>

text \<open>
  \<^verbatim>\<open>run_rmclean\<close> handles the cubes as arrays of \<^verbatim>\<open>numpy\<close>. An array is its shape, the list
  of the lengths of its axes, and its elements in row-major order; it holds as many
  elements as the product of its shape says. Elements are real or complex numbers: the
  casts \<^verbatim>\<open>astype("float32")\<close> round in the program and are the identity here, except that a
  cast of a complex array to a float type keeps the real part of every element, as
  \<^verbatim>\<open>numpy\<close> does (with a \<^verbatim>\<open>ComplexWarning\<close>).
\<close>

record 'a ndarray =
  shape :: "nat list"
  elems :: "'a list"

definition wf_array :: "'a ndarray \<Rightarrow> bool" where
  "wf_array a = (length (elems a) = prod_list (shape a))"

definition amap :: "('a \<Rightarrow> 'b) \<Rightarrow> 'a ndarray \<Rightarrow> 'b ndarray" where
  \<comment> \<open>an operation applied to every element: \<^verbatim>\<open>a * 1e3\<close>, \<^verbatim>\<open>a / 1e3\<close>, \<^verbatim>\<open>a.real\<close>, \<^verbatim>\<open>np.abs(a)\<close>\<close>
  "amap f a = \<lparr>shape = shape a, elems = map f (elems a)\<rparr>"

text \<open>
  An operation on two arrays broadcasts them first. The shapes are aligned at their last
  axes; the lengths of two aligned axes must be equal, or one of them must be 1, and the
  longer shape supplies the axes the shorter one lacks. \<open>broadcast_dims\<close> works on the
  reversed shapes. An array is then stretched to the common shape by repeating it along
  every axis on which its length is 1; \<open>broadcast_elems\<close> takes the shape of the array,
  padded with leading ones to the rank of the target, the target shape and the elements.
\<close>

fun broadcast_dims :: "nat list \<Rightarrow> nat list \<Rightarrow> nat list option" where
  "broadcast_dims [] ys = Some ys"
| "broadcast_dims (x # xs) [] = Some (x # xs)"
| "broadcast_dims (x # xs) (y # ys) =
     (if x = y \<or> y = 1 then map_option (Cons x) (broadcast_dims xs ys)
      else if x = 1 then map_option (Cons y) (broadcast_dims xs ys)
      else None)"

definition broadcast_shape :: "nat list \<Rightarrow> nat list \<Rightarrow> nat list option" where
  "broadcast_shape s t = map_option rev (broadcast_dims (rev s) (rev t))"

fun broadcast_elems :: "nat list \<Rightarrow> nat list \<Rightarrow> 'a list \<Rightarrow> 'a list" where
  "broadcast_elems (s # ss) (t # ts) xs =
     (let n = prod_list ss
      in if s = t
         then concat (map (\<lambda>i. broadcast_elems ss ts (take n (drop (i * n) xs))) [0..<s])
         else concat (replicate t (broadcast_elems ss ts xs)))"
| "broadcast_elems ss ts xs = xs"

definition broadcast_to :: "nat list \<Rightarrow> 'a ndarray \<Rightarrow> 'a ndarray" where
  "broadcast_to t a =
     \<lparr>shape = t,
      elems = broadcast_elems (replicate (length t - length (shape a)) 1 @ shape a) t
                (elems a)\<rparr>"


section \<open>run\_rmclean\<close>

text \<open>
  \<^verbatim>\<open>run_rmclean\<close> reads two FITS files, calls \<^verbatim>\<open>do_rmclean_hogbom\<close> and writes two FITS
  files. A FITS file is the list of its header-data units; a unit holds an array and a
  header (a unit without data is not modelled). The number of bits \<^verbatim>\<open>nBits\<close> only selects
  the types of the casts. Console output and the timing of the run are left out.

  The world is the part of the file system the function touches: the FITS files by path,
  and the paths that can be written to. Every Python exception is a value of
  \<open>py_error\<close>; the function returns the world it leaves behind together with the
  exception that ended it, if any.
\<close>

datatype py_error = IOError | IndexError | ValueError | RMutils_error

type_synonym header = "(string \<times> string) list"

record hdu =
  hdu_data :: "real ndarray"
  hdu_header :: header

record world =
  fits_files :: "string \<Rightarrow> hdu list option"
  writable :: "string \<Rightarrow> bool"

definition bind_result :: "'e + 'a \<Rightarrow> ('a \<Rightarrow> 'e + 'b) \<Rightarrow> 'e + 'b" where
  "bind_result r f = (case r of Inl e \<Rightarrow> Inl e | Inr x \<Rightarrow> f x)"

definition pf_open :: "world \<Rightarrow> string \<Rightarrow> py_error + hdu list" where
  \<comment> \<open>\<^verbatim>\<open>pf.open(path, "readonly", memmap=True)\<close>\<close>
  "pf_open w path = (case fits_files w path of None \<Rightarrow> Inl IOError | Some hs \<Rightarrow> Inr hs)"

definition hdu_at :: "hdu list \<Rightarrow> nat \<Rightarrow> py_error + hdu" where
  \<comment> \<open>\<^verbatim>\<open>HDULst[i]\<close>\<close>
  "hdu_at hs i = (if i < length hs then Inr (hs ! i) else Inl IndexError)"

definition complex_cube :: "real ndarray \<Rightarrow> real ndarray \<Rightarrow> py_error + complex ndarray" where
  \<comment> \<open>\<^verbatim>\<open>re + 1j * im\<close>: the two planes are broadcast to a common shape and added element by
      element; shapes that cannot be broadcast are a \<^verbatim>\<open>ValueError\<close>\<close>
  "complex_cube re im =
     (case broadcast_shape (shape re) (shape im) of
        None \<Rightarrow> Inl ValueError
      | Some t \<Rightarrow>
          Inr \<lparr>shape = t,
               elems = map2 Complex (elems (broadcast_to t re)) (elems (broadcast_to t im))\<rparr>)"

definition writeto :: "world \<Rightarrow> string \<Rightarrow> hdu list \<Rightarrow> py_error + world" where
  \<comment> \<open>\<^verbatim>\<open>hduLst.writeto(path, output_verify="fix", clobber=True)\<close>: an existing file is replaced\<close>
  "writeto w path hs =
     (if writable w path then Inr (w\<lparr>fits_files := (fits_files w)(path \<mapsto> hs)\<rparr>)
      else Inl IOError)"

text \<open>
  The functions \<^verbatim>\<open>fits_make_lin_axis\<close> and \<^verbatim>\<open>do_rmclean_hogbom\<close> are imported from
  \<^verbatim>\<open>RMutils.util_RM\<close>. They are parameters of the model, with the arguments
  \<^verbatim>\<open>run_rmclean\<close> passes them: the header and the axis number; and the dirty cube, the
  Faraday-depth axis, the RMSF cube, its doubled axis, the FWHM map, the cutoff, the
  iteration limit, the gain and the flags \<^verbatim>\<open>verbose\<close> and \<^verbatim>\<open>doPlots\<close>. The second returns the
  clean cube, the clean-component cube, both complex, and the map of iteration counts.
\<close>

record rmutils =
  fits_make_lin_axis :: "header \<Rightarrow> nat \<Rightarrow> py_error + real list"
  do_rmclean_hogbom ::
    "complex ndarray \<Rightarrow> real list \<Rightarrow> complex ndarray \<Rightarrow> real list \<Rightarrow> real ndarray
       \<Rightarrow> cutoff_arg \<Rightarrow> int \<Rightarrow> real \<Rightarrow> bool \<Rightarrow> bool
       \<Rightarrow> py_error + (complex ndarray \<times> complex ndarray \<times> real ndarray)"

record rmclean_inputs =
  in_head :: header
  in_dirtyFDF :: "complex ndarray"
  in_phiArr_radm2 :: "real list"
  in_RMSFArr :: "complex ndarray"
  in_fwhmRMSFArr :: "real ndarray"
  in_phi2Arr_radm2 :: "real list"

text \<open>The first half of \<^verbatim>\<open>run_rmclean\<close>: "Read the FDF" and "Read the RMSF".\<close>

definition read_cubes :: "rmutils \<Rightarrow> world \<Rightarrow> string \<Rightarrow> string \<Rightarrow> py_error + rmclean_inputs" where
  "read_cubes U w fitsFDF_path fitsRMSF_path =
     bind_result (pf_open w fitsFDF_path) (\<lambda>HDULst.
     bind_result (hdu_at HDULst 0) (\<lambda>h0.
     bind_result (hdu_at HDULst 1) (\<lambda>h1.
     bind_result (complex_cube (hdu_data h0) (hdu_data h1)) (\<lambda>dirtyFDF.
     bind_result (fits_make_lin_axis U (hdu_header h0) 2) (\<lambda>phiArr.
     bind_result (pf_open w fitsRMSF_path) (\<lambda>HDULst2.
     bind_result (hdu_at HDULst2 0) (\<lambda>r0.
     bind_result (hdu_at HDULst2 1) (\<lambda>r1.
     bind_result (hdu_at HDULst2 3) (\<lambda>r3.
     bind_result (complex_cube (hdu_data r0) (hdu_data r1)) (\<lambda>RMSFArr.
     bind_result (fits_make_lin_axis U (hdu_header r0) 2) (\<lambda>phi2Arr.
       Inr \<lparr>in_head = hdu_header h0, in_dirtyFDF = dirtyFDF, in_phiArr_radm2 = phiArr,
            in_RMSFArr = RMSFArr, in_fwhmRMSFArr = hdu_data r3,
            in_phi2Arr_radm2 = phi2Arr\<rparr>)))))))))))"

definition clean_fits_path :: "run_rmclean_call \<Rightarrow> string" where
  "clean_fits_path a = arg_outDir a @ ''/'' @ arg_prefixOut a @ ''FDF_clean.fits''"

definition nIter_fits_path :: "run_rmclean_call \<Rightarrow> string" where
  "nIter_fits_path a = arg_outDir a @ ''/'' @ arg_prefixOut a @ ''CLEAN_nIter.fits''"

text \<open>
  The units of the two output files: \<^verbatim>\<open>hdu0\<close> to \<^verbatim>\<open>hdu3\<close> of "Save the clean FDF", and
  \<^verbatim>\<open>hdu0\<close> of "Save the iteration count mask", whose header is the header of the dirty FDF
  with \<^verbatim>\<open>BUNIT\<close> set to \<^verbatim>\<open>Iterations\<close>. The fourth unit of the first file is
  \<^verbatim>\<open>ccArr.astype(dtFloat)\<close>, the cast of the complex array of clean components to a float
  type.
\<close>

definition clean_hdus :: "header \<Rightarrow> complex ndarray \<Rightarrow> complex ndarray \<Rightarrow> hdu list" where
  "clean_hdus head cleanFDF ccArr =
     [\<lparr>hdu_data = amap Re cleanFDF, hdu_header = head\<rparr>,
      \<lparr>hdu_data = amap Im cleanFDF, hdu_header = head\<rparr>,
      \<lparr>hdu_data = amap cmod cleanFDF, hdu_header = head\<rparr>,
      \<lparr>hdu_data = amap Re ccArr, hdu_header = head\<rparr>]"

definition nIter_hdus :: "header \<Rightarrow> real ndarray \<Rightarrow> hdu list" where
  "nIter_hdus head iterCountArr =
     [\<lparr>hdu_data = iterCountArr, hdu_header = AList.update ''BUNIT'' ''Iterations'' head\<rparr>]"

definition run_rmclean :: "rmutils \<Rightarrow> world \<Rightarrow> run_rmclean_call \<Rightarrow> world \<times> py_error option" where
  "run_rmclean U w a =
     (case read_cubes U w (arg_fitsFDF a) (arg_fitsRMSF a) of
        Inl e \<Rightarrow> (w, Some e)
      | Inr inp \<Rightarrow>
     (case do_rmclean_hogbom U (amap (\<lambda>z. z * 1000) (in_dirtyFDF inp)) (in_phiArr_radm2 inp)
             (in_RMSFArr inp) (in_phi2Arr_radm2 inp) (in_fwhmRMSFArr inp)
             (arg_cutoff_mJy a) (arg_maxIter a) (arg_gain a) True False of
        Inl e \<Rightarrow> (w, Some e)
      | Inr (cleanFDF0, ccArr0, iterCountArr) \<Rightarrow>
          (let cleanFDF = amap (\<lambda>z. z / 1000) cleanFDF0;
               ccArr = amap (\<lambda>z. z / 1000) ccArr0;
               head = in_head inp
           in case writeto w (clean_fits_path a) (clean_hdus head cleanFDF ccArr) of
                Inl e \<Rightarrow> (w, Some e)
              | Inr w1 \<Rightarrow>
                  (case writeto w1 (nIter_fits_path a) (nIter_hdus head iterCountArr) of
                     Inl e \<Rightarrow> (w1, Some e)
                   | Inr w2 \<Rightarrow> (w2, None)))))"

text \<open>
  Changing the unit of flux density by a factor \<open>s\<close> multiplies every amplitude and every
  cutoff by \<open>s\<close>. A deconvolution commutes with a change of unit when a run on a cube and a
  cutoff that were both multiplied by a positive factor fails as the run on the original
  does or returns the same iteration counts, and a clean cube and components multiplied by
  that factor.
\<close>

fun scale_cutoff :: "real \<Rightarrow> cutoff_arg \<Rightarrow> cutoff_arg" where
  "scale_cutoff s (Cutoff_scalar c) = Cutoff_scalar (s * c)"
| "scale_cutoff s (Cutoff_list cs) = Cutoff_list (map (\<lambda>c. s * c) cs)"

definition scale_products ::
  "real \<Rightarrow> py_error + (complex ndarray \<times> complex ndarray \<times> real ndarray)
     \<Rightarrow> py_error + (complex ndarray \<times> complex ndarray \<times> real ndarray)" where
  "scale_products s r =
     (case r of
        Inl e \<Rightarrow> Inl e
      | Inr (cleanFDF, ccArr, iterCountArr) \<Rightarrow>
          Inr (amap (\<lambda>z. z * of_real s) cleanFDF, amap (\<lambda>z. z * of_real s) ccArr,
               iterCountArr))"

definition commutes_with_units :: "rmutils \<Rightarrow> bool" where
  "commutes_with_units U =
     (\<forall>s dirty phi rmsf phi2 fwhm cutoff n g verbose plots.
        0 < s \<longrightarrow>
        do_rmclean_hogbom U (amap (\<lambda>z. z * of_real s) dirty) phi rmsf phi2 fwhm
            (scale_cutoff s cutoff) n g verbose plots
          = scale_products s
              (do_rmclean_hogbom U dirty phi rmsf phi2 fwhm cutoff n g verbose plots))"

text \<open>
  A small world and a stand-in for \<^verbatim>\<open>RMutils\<close> on which the function can be run. The
  stand-in deconvolution makes one pass over the dirty cube: it returns the cube as clean
  cube, the gain times every sample whose magnitude reaches the cutoff as components, and
  the number of these samples as count; a cutoff that is neither a number nor a list of
  one number is a \<^verbatim>\<open>ValueError\<close>. Both worlds hold a single line of sight. In the first the
  dirty FDF has the samples 3 and -2i; in the second both samples are imaginary.
\<close>

fun cutoff_number :: "cutoff_arg \<Rightarrow> real option" where
  "cutoff_number (Cutoff_scalar c) = Some c"
| "cutoff_number (Cutoff_list [c]) = Some c"
| "cutoff_number (Cutoff_list cs) = None"

definition one_pass ::
  "complex ndarray \<Rightarrow> real list \<Rightarrow> complex ndarray \<Rightarrow> real list \<Rightarrow> real ndarray
     \<Rightarrow> cutoff_arg \<Rightarrow> int \<Rightarrow> real \<Rightarrow> bool \<Rightarrow> bool
     \<Rightarrow> py_error + (complex ndarray \<times> complex ndarray \<times> real ndarray)" where
  "one_pass dirty phi rmsf phi2 fwhm cutoff n g verbose plots =
     (case cutoff_number cutoff of
        None \<Rightarrow> Inl ValueError
      | Some c \<Rightarrow>
          Inr (dirty,
               amap (\<lambda>z. if c \<le> cmod z then of_real g * z else 0) dirty,
               \<lparr>shape = [], elems = [real (length (filter (\<lambda>z. c \<le> cmod z) (elems dirty)))]\<rparr>))"

definition demo_rmutils :: rmutils where
  "demo_rmutils = \<lparr>fits_make_lin_axis = (\<lambda>h axis. Inr [0]), do_rmclean_hogbom = one_pass\<rparr>"

definition demo_rmsf_file :: "hdu list" where
  "demo_rmsf_file =
     [\<lparr>hdu_data = \<lparr>shape = [3], elems = [0, 1, 0]\<rparr>, hdu_header = []\<rparr>,
      \<lparr>hdu_data = \<lparr>shape = [3], elems = [0, 0, 0]\<rparr>, hdu_header = []\<rparr>,
      \<lparr>hdu_data = \<lparr>shape = [3], elems = [0, 1, 0]\<rparr>, hdu_header = []\<rparr>,
      \<lparr>hdu_data = \<lparr>shape = [], elems = [2]\<rparr>, hdu_header = []\<rparr>]"

definition demo_world :: world where
  "demo_world =
     \<lparr>fits_files = (\<lambda>p.
         if p = ''d/FDF_dirty.fits''
         then Some [\<lparr>hdu_data = \<lparr>shape = [2], elems = [3, 0]\<rparr>,
                     hdu_header = [(''BUNIT'', ''Jy/beam'')]\<rparr>,
                    \<lparr>hdu_data = \<lparr>shape = [2], elems = [0, - 2]\<rparr>, hdu_header = []\<rparr>]
         else if p = ''d/RMSF.fits'' then Some demo_rmsf_file
         else None),
      writable = (\<lambda>p. True)\<rparr>"

definition imaginary_world :: world where
  "imaginary_world =
     \<lparr>fits_files = (\<lambda>p.
         if p = ''d/FDF_dirty.fits''
         then Some [\<lparr>hdu_data = \<lparr>shape = [2], elems = [0, 0]\<rparr>,
                     hdu_header = [(''BUNIT'', ''Jy/beam'')]\<rparr>,
                    \<lparr>hdu_data = \<lparr>shape = [2], elems = [10, - 20]\<rparr>, hdu_header = []\<rparr>]
         else if p = ''d/RMSF.fits'' then Some demo_rmsf_file
         else None),
      writable = (\<lambda>p. True)\<rparr>"

definition demo_call :: run_rmclean_call where
  "demo_call =
     \<lparr>arg_fitsFDF = ''d/FDF_dirty.fits'', arg_fitsRMSF = ''d/RMSF.fits'',
      arg_cutoff_mJy = Cutoff_list [2500], arg_maxIter = 1000, arg_gain = 1 / 10,
      arg_prefixOut = '''', arg_outDir = ''d'', arg_nBits = 32\<rparr>"


section \<open>The numerical core, modelled from the specification\<close>

text \<open>
  The script \<^verbatim>\<open>do_RMsynth_3D.py\<close> leaves the synthesis and the RMSF to
  \<^verbatim>\<open>do_rmsynth_planes\<close> and \<^verbatim>\<open>get_rmsf_planes\<close> of \<^verbatim>\<open>RMutils.util_RM\<close>, which is not among
  the sources at hand. The definitions of this section follow the words of the
  specification instead, component by component. Numbers are real and complex numbers, so
  rounding is not modelled, and the "no data" sentinel of an array is \<open>None\<close>.
\<close>

subsection \<open>FrequencyModel\<close>

datatype weight_mode = Uniform | Variance

datatype configuration_error = InvalidWeightMode | NonPositiveNoise

definition speed_of_light :: real where
  \<comment> \<open>the constant \<^verbatim>\<open>C = 2.997924538e8\<close> of both scripts\<close>
  "speed_of_light = 2997924538 / 10"

text \<open>
  Modelled from the spec: the FrequencyModel of section 4.1, which is not in the sources.
  Given the frequencies, the weighting mode and the optional noise values it produces the
  wavelength-squared of every channel, (c / frequency) squared, and the base weight of
  every channel: 1, or 1 / noise squared. It fails with \<open>InvalidWeightMode\<close> if variance
  weighting is requested without noise values and with \<open>NonPositiveNoise\<close> if a noise
  value is not positive.
\<close>

definition frequency_model ::
  "real list \<Rightarrow> weight_mode \<Rightarrow> real list option
     \<Rightarrow> configuration_error + (real list \<times> real list)" where
  "frequency_model freqs mode noise =
     (let lambda2 = map (\<lambda>f. (speed_of_light / f)\<^sup>2) freqs
      in case mode of
           Uniform \<Rightarrow> Inr (lambda2, map (\<lambda>f. 1) freqs)
         | Variance \<Rightarrow>
             (case noise of
                None \<Rightarrow> Inl InvalidWeightMode
              | Some sigmas \<Rightarrow>
                  if list_ex (\<lambda>s. s \<le> 0) sigmas then Inl NonPositiveNoise
                  else Inr (lambda2, map (\<lambda>s. 1 / s\<^sup>2) sigmas)))"

text \<open>
  Modelled from the spec: the WeightVector of section 3. The entries at the channels
  that are invalid for a pixel are forced to zero and stay in place.
\<close>

definition pixel_weights :: "real list \<Rightarrow> bool list \<Rightarrow> real list" where
  "pixel_weights base valid = map2 (\<lambda>w v. if v then w else 0) base valid"

subsection \<open>FlagPatternRegistry\<close>

text \<open>
  Modelled from the spec: the FlagPatternRegistry of section 4.2, which is not in the
  sources. A validity mask has one flag per channel. The registry computes the signature
  of the mask of every pixel (the function \<open>sig\<close>: a hash or a bit-packed key) and groups
  the pixels by signature. It holds the patterns in their order of discovery, each with
  its signature and a representative mask, and the lookup from pixel to pattern id; the
  id of a pattern is its position in the list. Pixels are numbered, and \<open>order\<close> is the
  order in which they are processed.
\<close>

type_synonym mask = "bool list"

record 'k registry =
  patterns :: "('k \<times> mask) list"
  lookup :: "nat \<Rightarrow> nat option"

fun find_pattern :: "'k \<Rightarrow> ('k \<times> mask) list \<Rightarrow> nat option" where
  "find_pattern k [] = None"
| "find_pattern k (p # ps) =
     (if fst p = k then Some 0 else map_option Suc (find_pattern k ps))"

definition register_pixel ::
  "(mask \<Rightarrow> 'k) \<Rightarrow> (nat \<Rightarrow> mask) \<Rightarrow> 'k registry \<Rightarrow> nat \<Rightarrow> 'k registry" where
  "register_pixel sig mask_of reg px =
     (let m = mask_of px; k = sig m
      in case find_pattern k (patterns reg) of
           Some pid \<Rightarrow> reg\<lparr>lookup := (lookup reg)(px \<mapsto> pid)\<rparr>
         | None \<Rightarrow> reg\<lparr>patterns := patterns reg @ [(k, m)],
                       lookup := (lookup reg)(px \<mapsto> length (patterns reg))\<rparr>)"

definition empty_registry :: "'k registry" where
  "empty_registry = \<lparr>patterns = [], lookup = (\<lambda>px. None)\<rparr>"

definition build_registry :: "(mask \<Rightarrow> 'k) \<Rightarrow> mask list \<Rightarrow> nat list \<Rightarrow> 'k registry" where
  "build_registry sig masks order =
     foldl (register_pixel sig (\<lambda>px. masks ! px)) empty_registry order"

text \<open>
  Modelled from the spec: the RMSF is held per pattern (section 3), one array for every
  pattern of the registry, built from the representative mask; a pixel refers to the
  array of its pattern.
\<close>

definition rmsf_table :: "(mask \<Rightarrow> 'r) \<Rightarrow> 'k registry \<Rightarrow> 'r list" where
  "rmsf_table build reg = map (\<lambda>p. build (snd p)) (patterns reg)"

definition rmsf_of_pixel :: "(mask \<Rightarrow> 'r) \<Rightarrow> 'k registry \<Rightarrow> nat \<Rightarrow> 'r option" where
  "rmsf_of_pixel build reg px =
     (case lookup reg px of
        None \<Rightarrow> None
      | Some pid \<Rightarrow>
          if pid < length (patterns reg) then Some (rmsf_table build reg ! pid) else None)"

text \<open>The invariant of the registry while it is built: no signature is held twice, and
  every pixel looked up refers to an existing pattern that carries the signature of the
  mask of the pixel.\<close>

definition registry_inv :: "(mask \<Rightarrow> 'k) \<Rightarrow> (nat \<Rightarrow> mask) \<Rightarrow> 'k registry \<Rightarrow> bool" where
  "registry_inv sig mask_of reg \<longleftrightarrow>
     distinct (map fst (patterns reg))
     \<and> (\<forall>px pid. lookup reg px = Some pid \<longrightarrow>
          pid < length (patterns reg) \<and> fst (patterns reg ! pid) = sig (mask_of px))"

text \<open>A bit-packed key as signature: the flags as the binary digits of a number, preceded
  by a leading one so that masks of different lengths get different keys.\<close>

fun bit_packed :: "mask \<Rightarrow> nat" where
  "bit_packed [] = 1"
| "bit_packed (b # bs) = (if b then 1 else 0) + 2 * bit_packed bs"

subsection \<open>SynthesisEngine\<close>

text \<open>
  Modelled from the spec: the operation \<open>synthesize\<close> of section 4.3, which is not in the
  sources. The inputs are the complex samples \<open>P\<close> of the pixel, its weights \<open>w\<close> (zero at
  the invalid channels), the wavelength-squared values and the trial depths. The reference
  wavelength squared is the weighted mean over the channels with nonzero weight. The sums
  run over the channels in order, as loops over the arrays would; the arrays are expected
  to have one length.
\<close>

fun weighted_sums :: "real list \<Rightarrow> real list \<Rightarrow> real \<times> real" where
  \<comment> \<open>the sum of \<open>w * lambda2\<close> and the sum of \<open>w\<close>, over the channels with nonzero weight\<close>
  "weighted_sums (w # ws) (l # ls) =
     (let (s, k) = weighted_sums ws ls
      in if w \<noteq> 0 then (w * l + s, w + k) else (s, k))"
| "weighted_sums _ _ = (0, 0)"

definition reference_lambda2 :: "real list \<Rightarrow> real list \<Rightarrow> real" where
  "reference_lambda2 ws ls = (let (s, k) = weighted_sums ws ls in s / k)"

fun rotate_and_sum :: "real \<Rightarrow> real \<Rightarrow> real list \<Rightarrow> complex list \<Rightarrow> real list \<Rightarrow> complex" where
  \<comment> \<open>the sum over the channels of \<open>w * P * exp (-2i * phi * (lambda2 - lambda2_0))\<close>\<close>
  "rotate_and_sum phi l0 (w # ws) (p # ps) (l # ls) =
     of_real w * p * exp (- 2 * \<i> * of_real (phi * (l - l0)))
       + rotate_and_sum phi l0 ws ps ls"
| "rotate_and_sum phi l0 _ _ _ = 0"

definition synthesize ::
  "complex list \<Rightarrow> real list \<Rightarrow> real list \<Rightarrow> real list \<Rightarrow> complex option list" where
  "synthesize ps ws ls phis =
     (let K = sum_list ws
      in if K = 0 then map (\<lambda>phi. None) phis
         else (let l0 = reference_lambda2 ws ls
               in map (\<lambda>phi. Some (1 / of_real K * rotate_and_sum phi l0 ws ps ls)) phis))"

subsection \<open>RMSFEngine\<close>

text \<open>
  Modelled from the spec: the operation \<open>build\<close> of section 4.4, which is not in the
  sources: the summation of \<open>synthesize\<close> with unit amplitude at every channel, restricted
  to the valid channels of the pattern by its weights, over the doubled axis, normalised
  by the sum of the weights of the pattern. The optional fit of the main lobe is not
  modelled.
\<close>

definition build_rmsf :: "real list \<Rightarrow> real list \<Rightarrow> real list \<Rightarrow> mask \<Rightarrow> complex option list" where
  "build_rmsf base ls phi2s valid =
     synthesize (map (\<lambda>l. 1) ls) (pixel_weights base valid) ls phi2s"


section \<open>Properties of the two command lines\<close>

subsection \<open>Options never touch the positional arguments\<close>

lemma synth_store_positional:
  "fitsQ (synth_store a x) = fitsQ a \<and> fitsU (synth_store a x) = fitsU a
   \<and> freqFile (synth_store a x) = freqFile a"
  by (cases x) simp_all

lemma synth_fold_positional:
  "fitsQ (foldl synth_store a opts) = fitsQ a \<and> fitsU (foldl synth_store a opts) = fitsU a
   \<and> freqFile (foldl synth_store a opts) = freqFile a"
  by (induction opts arbitrary: a) (simp_all add: synth_store_positional)

lemma clean_store_positional:
  "fitsFDF (clean_store a x) = fitsFDF a \<and> fitsRMSF (clean_store a x) = fitsRMSF a"
  by (cases x) simp_all

lemma clean_fold_positional:
  "fitsFDF (foldl clean_store a opts) = fitsFDF a
   \<and> fitsRMSF (foldl clean_store a opts) = fitsRMSF a"
  by (induction opts arbitrary: a) (simp_all add: clean_store_positional)

lemma do_RMclean_3D_main_unfold:
  "do_RMclean_3D_main ex [fdf, rmsf] opts =
     (if \<not> ex fdf then Sys_exit (missing_file_message fdf)
      else if \<not> ex rmsf then Sys_exit (missing_file_message rmsf)
      else Calls (clean_call_of (foldl clean_store (clean_defaults fdf rmsf) opts)))"
  by (simp add: do_RMclean_3D_main_def clean_fold_positional clean_defaults_def)

subsection \<open>What the fold over the options leaves in each attribute\<close>

lemma clean_fold_cutoff_omitted:
  "\<forall>x. Clean_c x \<notin> set opts \<Longrightarrow> cutoff_mJy (foldl clean_store a opts) = cutoff_mJy a"
proof (induction opts arbitrary: a)
  case Nil
  then show ?case by simp
next
  case (Cons x opts)
  then show ?case by (cases x) auto
qed

lemma clean_fold_cutoff_given:
  "Clean_c x \<in> set opts \<Longrightarrow>
     \<exists>y. Clean_c y \<in> set opts \<and> cutoff_mJy (foldl clean_store a opts) = Cutoff_list [y]"
proof (induction opts rule: rev_induct)
  case Nil
  then show ?case by simp
next
  case (snoc z opts)
  show ?case
  proof (cases z)
    case (Clean_c y)
    then show ?thesis by auto
  next
    case (Clean_n n)
    with snoc show ?thesis by auto
  next
    case (Clean_g g)
    with snoc show ?thesis by auto
  next
    case (Clean_o s)
    with snoc show ?thesis by auto
  qed
qed

lemma clean_fold_maxIter_omitted:
  "\<forall>n. Clean_n n \<notin> set opts \<Longrightarrow> maxIter (foldl clean_store a opts) = maxIter a"
proof (induction opts arbitrary: a)
  case Nil
  then show ?case by simp
next
  case (Cons x opts)
  then show ?case by (cases x) auto
qed

lemma clean_fold_gain_omitted:
  "\<forall>g. Clean_g g \<notin> set opts \<Longrightarrow> gain (foldl clean_store a opts) = gain a"
proof (induction opts arbitrary: a)
  case Nil
  then show ?case by simp
next
  case (Cons x opts)
  then show ?case by (cases x) auto
qed

subsection \<open>do\_RMsynth\_3D.py checks two paths only\<close>

text \<open>
  Claim C9. The command-line entry point of \<^verbatim>\<open>do_RMsynth_3D.py\<close> tests for existence the
  Stokes Q path and the Stokes U path, in this order, and nothing else: it prints the
  message for the first of the two that is missing and exits, and otherwise calls
  \<^verbatim>\<open>run_rmsynth\<close>. The outcome depends on the file system through \<open>ex q\<close> and \<open>ex u\<close> alone,
  so the frequency file, the Stokes I cube and the noise file reach \<^verbatim>\<open>run_rmsynth\<close> as
  they were typed, whether or not such files exist.
\<close>

theorem do_RMsynth_3D_main_existence_checks:
  "do_RMsynth_3D_main ex [q, u, fr] opts =
      (if \<not> ex q then Sys_exit (missing_file_message q)
       else if \<not> ex u then Sys_exit (missing_file_message u)
       else Calls (synth_call_of (foldl synth_store (synth_defaults q u fr) opts)))
   \<and> (ex q \<and> ex u \<longrightarrow>
        (\<exists>c. do_RMsynth_3D_main ex [q, u, fr] (opts @ [Synth_i pI, Synth_n pN]) = Calls c
            \<and> call_fitsQ c = q \<and> call_fitsU c = u
            \<and> call_freqFile c = fr \<and> call_fitsI c = Some pI \<and> call_noiseFile c = Some pN))"
  by (simp add: do_RMsynth_3D_main_def synth_fold_positional synth_call_of_def
      synth_defaults_def)

theorem do_RMsynth_3D_main_existence_checks_witness:
  "(let ex = (\<lambda>f. f = ''Q.fits'' \<or> f = ''U.fits'') in
     ex ''Q.fits'' \<and> ex ''U.fits'' \<and> \<not> ex ''freqs.dat'' \<and> \<not> ex ''I.fits''
     \<and> \<not> ex ''noise.dat''
     \<and> (\<exists>c. do_RMsynth_3D_main ex [''Q.fits'', ''U.fits'', ''freqs.dat'']
               [Synth_i ''I.fits'', Synth_n ''noise.dat''] = Calls c
            \<and> call_freqFile c = ''freqs.dat'' \<and> call_fitsI c = Some ''I.fits''
            \<and> call_noiseFile c = Some ''noise.dat''))"
  using do_RMsynth_3D_main_existence_checks
    [of "\<lambda>f. f = ''Q.fits'' \<or> f = ''U.fits''" "''Q.fits''" "''U.fits''" "''freqs.dat''"
        "[]" "''I.fits''" "''noise.dat''"]
  by (auto simp add: Let_def)


subsection \<open>The type of the cutoff that reaches run\_rmclean\<close>

lemma clean_fold_cutoff_last:
  assumes "\<forall>x. Clean_c x \<notin> set after"
  shows "cutoff_mJy (foldl clean_store a (before @ Clean_c y # after)) = Cutoff_list [y]"
  using clean_fold_cutoff_omitted [OF assms] by simp

text \<open>
  Claim C10. When the two input files exist, \<^verbatim>\<open>main\<close> of \<^verbatim>\<open>do_RMclean_3D.py\<close> calls
  \<^verbatim>\<open>run_rmclean\<close>, whatever the options are. If \<^verbatim>\<open>-c\<close> occurs on the command line, the call
  receives \<^verbatim>\<open>cutoff_mJy\<close> as a one-element list, which holds the value typed after the last
  \<^verbatim>\<open>-c\<close>; if \<^verbatim>\<open>-c\<close> is omitted, the call receives the scalar 1.0. When one of the two files
  does not exist there is no call.
\<close>

theorem do_RMclean_3D_main_cutoff_type:
  "(ex fdf \<and> ex rmsf \<longrightarrow>
      (\<exists>c. do_RMclean_3D_main ex [fdf, rmsf] opts = Calls c
         \<and> ((\<exists>x. Clean_c x \<in> set opts) \<longrightarrow>
               (\<exists>y. Clean_c y \<in> set opts \<and> arg_cutoff_mJy c = Cutoff_list [y]))
         \<and> (\<forall>before y after. opts = before @ Clean_c y # after \<and> (\<forall>x. Clean_c x \<notin> set after)
               \<longrightarrow> arg_cutoff_mJy c = Cutoff_list [y])
         \<and> ((\<forall>x. Clean_c x \<notin> set opts) \<longrightarrow> arg_cutoff_mJy c = Cutoff_scalar 1.0)))
   \<and> (\<not> (ex fdf \<and> ex rmsf) \<longrightarrow> (\<forall>c. do_RMclean_3D_main ex [fdf, rmsf] opts \<noteq> Calls c))"
proof (intro conjI impI)
  assume files: "ex fdf \<and> ex rmsf"
  let ?a = "foldl clean_store (clean_defaults fdf rmsf) opts"
  let ?c = "clean_call_of ?a"
  from files have run: "do_RMclean_3D_main ex [fdf, rmsf] opts = Calls ?c"
    by (simp add: do_RMclean_3D_main_unfold)
  have given: "\<exists>y. Clean_c y \<in> set opts \<and> arg_cutoff_mJy ?c = Cutoff_list [y]"
    if "\<exists>x. Clean_c x \<in> set opts"
  proof -
    from that obtain x where "Clean_c x \<in> set opts" ..
    from clean_fold_cutoff_given [OF this, of "clean_defaults fdf rmsf"] show ?thesis
      by (simp add: clean_call_of_def)
  qed
  have last: "arg_cutoff_mJy ?c = Cutoff_list [y]"
    if "opts = before @ Clean_c y # after \<and> (\<forall>x. Clean_c x \<notin> set after)" for before y after
    using that clean_fold_cutoff_last [of after "clean_defaults fdf rmsf" before y]
    by (simp add: clean_call_of_def)
  have omitted: "arg_cutoff_mJy ?c = Cutoff_scalar 1.0" if "\<forall>x. Clean_c x \<notin> set opts"
    using clean_fold_cutoff_omitted [OF that, of "clean_defaults fdf rmsf"]
    by (simp add: clean_call_of_def clean_defaults_def)
  from run given last omitted
  show "\<exists>c. do_RMclean_3D_main ex [fdf, rmsf] opts = Calls c
         \<and> ((\<exists>x. Clean_c x \<in> set opts) \<longrightarrow>
               (\<exists>y. Clean_c y \<in> set opts \<and> arg_cutoff_mJy c = Cutoff_list [y]))
         \<and> (\<forall>before y after. opts = before @ Clean_c y # after \<and> (\<forall>x. Clean_c x \<notin> set after)
               \<longrightarrow> arg_cutoff_mJy c = Cutoff_list [y])
         \<and> ((\<forall>x. Clean_c x \<notin> set opts) \<longrightarrow> arg_cutoff_mJy c = Cutoff_scalar 1.0)"
    by (intro exI [of _ ?c] conjI allI impI) blast+
next
  assume "\<not> (ex fdf \<and> ex rmsf)"
  then show "\<forall>c. do_RMclean_3D_main ex [fdf, rmsf] opts \<noteq> Calls c"
    by (auto simp add: do_RMclean_3D_main_unfold)
qed

text \<open>
  Three command lines for the same two files: \<^verbatim>\<open>-n 50 -c 3 -c 7\<close> and \<^verbatim>\<open>-n 50\<close> with both
  files present, and \<^verbatim>\<open>-c 3\<close> with the RMSF file missing.
\<close>

theorem do_RMclean_3D_main_cutoff_type_witness:
  "(\<exists>c. do_RMclean_3D_main (\<lambda>f. True) [''d/FDF_dirty.fits'', ''d/RMSF.fits'']
          [Clean_n 50, Clean_c 3, Clean_c 7] = Calls c
        \<and> arg_cutoff_mJy c = Cutoff_list [7])
   \<and> (\<exists>c. do_RMclean_3D_main (\<lambda>f. True) [''d/FDF_dirty.fits'', ''d/RMSF.fits'']
          [Clean_n 50] = Calls c
        \<and> arg_cutoff_mJy c = Cutoff_scalar 1)
   \<and> (\<forall>c. do_RMclean_3D_main (\<lambda>f. f = ''d/FDF_dirty.fits'')
          [''d/FDF_dirty.fits'', ''d/RMSF.fits''] [Clean_c 3] \<noteq> Calls c)"
proof -
  have split: "[Clean_n 50, Clean_c 3, Clean_c 7] = [Clean_n 50, Clean_c 3] @ Clean_c 7 # []
      \<and> (\<forall>x. Clean_c x \<notin> set [])"
    by simp
  from do_RMclean_3D_main_cutoff_type
    [of "\<lambda>f. True" "''d/FDF_dirty.fits''" "''d/RMSF.fits''" "[Clean_n 50, Clean_c 3, Clean_c 7]"]
  obtain c where c: "do_RMclean_3D_main (\<lambda>f. True) [''d/FDF_dirty.fits'', ''d/RMSF.fits'']
          [Clean_n 50, Clean_c 3, Clean_c 7] = Calls c"
    and l: "\<forall>before y after. [Clean_n 50, Clean_c 3, Clean_c 7] = before @ Clean_c y # after
               \<and> (\<forall>x. Clean_c x \<notin> set after) \<longrightarrow> arg_cutoff_mJy c = Cutoff_list [y]"
    by auto
  from l split have "arg_cutoff_mJy c = Cutoff_list [7]" by blast
  with c have first: "\<exists>c. do_RMclean_3D_main (\<lambda>f. True) [''d/FDF_dirty.fits'', ''d/RMSF.fits'']
          [Clean_n 50, Clean_c 3, Clean_c 7] = Calls c \<and> arg_cutoff_mJy c = Cutoff_list [7]"
    by blast
  from do_RMclean_3D_main_cutoff_type
    [of "\<lambda>f. True" "''d/FDF_dirty.fits''" "''d/RMSF.fits''" "[Clean_n 50]"]
  have second: "\<exists>c. do_RMclean_3D_main (\<lambda>f. True) [''d/FDF_dirty.fits'', ''d/RMSF.fits'']
          [Clean_n 50] = Calls c \<and> arg_cutoff_mJy c = Cutoff_scalar 1"
    by auto
  from do_RMclean_3D_main_cutoff_type
    [of "\<lambda>f. f = ''d/FDF_dirty.fits''" "''d/FDF_dirty.fits''" "''d/RMSF.fits''" "[Clean_c 3]"]
  have third: "\<forall>c. do_RMclean_3D_main (\<lambda>f. f = ''d/FDF_dirty.fits'')
          [''d/FDF_dirty.fits'', ''d/RMSF.fits''] [Clean_c 3] \<noteq> Calls c"
    by simp
  from first second third show ?thesis by blast
qed

subsection \<open>Defaults and the absence of range checks\<close>

text \<open>
  Claim C6 says that the cutoff and the iteration limit have no defaults and that cutoff,
  iteration limit and gain are restricted in range. On the command line of
  \<^verbatim>\<open>do_RMclean_3D.py\<close> this is not so: with no option at all \<^verbatim>\<open>run_rmclean\<close> is called with
  cutoff 1.0, 1000 iterations and gain 0.1, and a negative cutoff, a negative iteration
  limit and a gain of 7 are accepted and handed on.
\<close>

theorem do_RMclean_3D_main_defaults_counterexample:
  "do_RMclean_3D_main (\<lambda>f. True) [''d/FDF_dirty.fits'', ''d/RMSF.fits''] [] =
     Calls \<lparr>arg_fitsFDF = ''d/FDF_dirty.fits'', arg_fitsRMSF = ''d/RMSF.fits'',
            arg_cutoff_mJy = Cutoff_scalar 1, arg_maxIter = 1000, arg_gain = 1 / 10,
            arg_prefixOut = '''', arg_outDir = ''d'', arg_nBits = 32\<rparr>
   \<and> do_RMclean_3D_main (\<lambda>f. True) [''d/FDF_dirty.fits'', ''d/RMSF.fits'']
        [Clean_c (- 5), Clean_n (- 3), Clean_g 7] =
     Calls \<lparr>arg_fitsFDF = ''d/FDF_dirty.fits'', arg_fitsRMSF = ''d/RMSF.fits'',
            arg_cutoff_mJy = Cutoff_list [- 5], arg_maxIter = - 3, arg_gain = 7,
            arg_prefixOut = '''', arg_outDir = ''d'', arg_nBits = 32\<rparr>"
  by (simp add: do_RMclean_3D_main_unfold clean_call_of_def clean_defaults_def
      os_path_split_def rstrip_slash_def)

text \<open>
  Claim C6, amended. Cutoff, iteration limit and gain are optional on the command line:
  an option that is omitted leaves the default (the scalar 1.0, 1000, 0.1). Whatever
  values are typed last for \<^verbatim>\<open>-c\<close>, \<^verbatim>\<open>-n\<close> and \<^verbatim>\<open>-g\<close> reach \<^verbatim>\<open>run_rmclean\<close> unchanged, of any
  sign and size: \<^verbatim>\<open>main\<close> checks nothing but the existence of the two input files.
\<close>

theorem do_RMclean_3D_main_defaults_and_passthrough:
  "ex fdf \<and> ex rmsf \<longrightarrow>
     (\<exists>c. do_RMclean_3D_main ex [fdf, rmsf] opts = Calls c
        \<and> ((\<forall>x. Clean_c x \<notin> set opts) \<longrightarrow> arg_cutoff_mJy c = Cutoff_scalar 1.0)
        \<and> ((\<forall>n. Clean_n n \<notin> set opts) \<longrightarrow> arg_maxIter c = 1000)
        \<and> ((\<forall>g. Clean_g g \<notin> set opts) \<longrightarrow> arg_gain c = 0.1))
     \<and> (\<exists>c. do_RMclean_3D_main ex [fdf, rmsf] (opts @ [Clean_c x, Clean_n n, Clean_g g]) = Calls c
        \<and> arg_cutoff_mJy c = Cutoff_list [x] \<and> arg_maxIter c = n \<and> arg_gain c = g)"
  by (simp add: do_RMclean_3D_main_unfold clean_call_of_def clean_fold_cutoff_omitted
      clean_fold_maxIter_omitted clean_fold_gain_omitted clean_defaults_def)

theorem do_RMclean_3D_main_defaults_and_passthrough_witness:
  "(\<exists>c. do_RMclean_3D_main (\<lambda>f. True) [''d/FDF_dirty.fits'', ''d/RMSF.fits''] [Clean_o ''run1_''] = Calls c
        \<and> arg_cutoff_mJy c = Cutoff_scalar 1 \<and> arg_maxIter c = 1000 \<and> arg_gain c = 1 / 10)
   \<and> (\<exists>c. do_RMclean_3D_main (\<lambda>f. True) [''d/FDF_dirty.fits'', ''d/RMSF.fits'']
            [Clean_o ''run1_'', Clean_c (- 5), Clean_n (- 3), Clean_g 7] = Calls c
        \<and> arg_cutoff_mJy c = Cutoff_list [- 5] \<and> arg_maxIter c = - 3 \<and> arg_gain c = 7)"
  using do_RMclean_3D_main_defaults_and_passthrough
    [of "\<lambda>f. True" "''d/FDF_dirty.fits''" "''d/RMSF.fits''" "[Clean_o ''run1_'']" "- 5" "- 3" 7]
  by simp


section \<open>Properties of run\_rmclean\<close>

subsection \<open>Planes of one shape\<close>

lemma broadcast_dims_same: "broadcast_dims xs xs = Some xs"
  by (induction xs) simp_all

lemma broadcast_shape_same: "broadcast_shape s s = Some s"
  by (simp add: broadcast_shape_def broadcast_dims_same)

lemma concat_blocks:
  "length xs = s * n \<Longrightarrow> concat (map (\<lambda>i. take n (drop (i * n) xs)) [0..<s]) = xs"
proof (induction s arbitrary: xs)
  case 0
  then show ?case by simp
next
  case (Suc s)
  have "[0..<Suc s] = 0 # map Suc [0..<s]"
    by (simp only: map_Suc_upt upt_conv_Cons zero_less_Suc)
  then have "concat (map (\<lambda>i. take n (drop (i * n) xs)) [0..<Suc s])
      = take n xs @ concat (map (\<lambda>i. take n (drop (Suc i * n) xs)) [0..<s])"
    by (simp add: o_def)
  also have "(\<lambda>i. take n (drop (Suc i * n) xs)) = (\<lambda>i. take n (drop (i * n) (drop n xs)))"
    by (simp add: add.commute)
  also from Suc.prems have "concat (map (\<lambda>i. take n (drop (i * n) (drop n xs))) [0..<s])
      = drop n xs"
    by (intro Suc.IH) simp
  finally show ?case by simp
qed

lemma broadcast_elems_same:
  "length xs = prod_list s \<Longrightarrow> broadcast_elems s s xs = xs"
proof (induction s arbitrary: xs)
  case Nil
  then show ?case by simp
next
  case (Cons d s)
  let ?n = "prod_list s"
  have block: "broadcast_elems s s (take ?n (drop (i * ?n) xs)) = take ?n (drop (i * ?n) xs)"
    if "i < d" for i
  proof -
    from that have "Suc i * ?n \<le> d * ?n" by (intro mult_le_mono1) simp
    with Cons.prems have "length (take ?n (drop (i * ?n) xs)) = ?n" by simp
    then show ?thesis by (rule Cons.IH)
  qed
  have blocks: "map (\<lambda>i. broadcast_elems s s (take ?n (drop (i * ?n) xs))) [0..<d]
      = map (\<lambda>i. take ?n (drop (i * ?n) xs)) [0..<d]"
    by (rule map_cong) (simp_all add: block)
  have "broadcast_elems (d # s) (d # s) xs
      = concat (map (\<lambda>i. broadcast_elems s s (take ?n (drop (i * ?n) xs))) [0..<d])"
    by (simp add: Let_def)
  also have "\<dots> = concat (map (\<lambda>i. take ?n (drop (i * ?n) xs)) [0..<d])"
    by (simp only: blocks)
  also from Cons.prems have "\<dots> = xs"
    by (intro concat_blocks) simp
  finally show ?case .
qed

lemma broadcast_to_same: "wf_array a \<Longrightarrow> broadcast_to (shape a) a = a"
  by (simp add: broadcast_to_def wf_array_def broadcast_elems_same)

lemma complex_cube_same_shape:
  assumes "shape re = shape im" and "wf_array re" and "wf_array im"
  shows "complex_cube re im
     = Inr \<lparr>shape = shape re, elems = map2 Complex (elems re) (elems im)\<rparr>"
  using assms broadcast_to_same [of re] broadcast_to_same [of im]
  by (simp add: complex_cube_def broadcast_shape_same)

text \<open>A plane of one sample is broadcast against a plane of any shape.\<close>

lemma complex_cube_one_sample:
  "complex_cube \<lparr>shape = [2, 1, 1], elems = [3, 0]\<rparr> \<lparr>shape = [1], elems = [5]\<rparr>
     = Inr \<lparr>shape = [2, 1, 1], elems = [Complex 3 5, Complex 0 5]\<rparr>"
  by (simp add: complex_cube_def broadcast_shape_def broadcast_to_def upt_conv_Cons
      eval_nat_numeral)

lemma complex_cube_mismatch:
  "complex_cube \<lparr>shape = [2, 3], elems = [1, 2, 3, 4, 5, 6]\<rparr>
      \<lparr>shape = [3, 2], elems = [1, 2, 3, 4, 5, 6]\<rparr> = Inl ValueError"
  by (simp add: complex_cube_def broadcast_shape_def)

subsection \<open>When a run succeeds\<close>

lemma output_paths_differ: "clean_fits_path a \<noteq> nIter_fits_path a"
  by (simp add: clean_fits_path_def nIter_fits_path_def)

lemma read_cubes_succeeds:
  assumes "fits_files w fdf_path = Some fdf" and "2 \<le> length fdf"
    and "shape (hdu_data (fdf ! 0)) = shape (hdu_data (fdf ! 1))"
    and "wf_array (hdu_data (fdf ! 0))" and "wf_array (hdu_data (fdf ! 1))"
    and "fits_make_lin_axis U (hdu_header (fdf ! 0)) 2 = Inr phi"
    and "fits_files w rmsf_path = Some rf" and "4 \<le> length rf"
    and "shape (hdu_data (rf ! 0)) = shape (hdu_data (rf ! 1))"
    and "wf_array (hdu_data (rf ! 0))" and "wf_array (hdu_data (rf ! 1))"
    and "fits_make_lin_axis U (hdu_header (rf ! 0)) 2 = Inr phi2"
  shows "read_cubes U w fdf_path rmsf_path =
     Inr \<lparr>in_head = hdu_header (fdf ! 0),
          in_dirtyFDF = \<lparr>shape = shape (hdu_data (fdf ! 0)),
             elems = map2 Complex (elems (hdu_data (fdf ! 0))) (elems (hdu_data (fdf ! 1)))\<rparr>,
          in_phiArr_radm2 = phi,
          in_RMSFArr = \<lparr>shape = shape (hdu_data (rf ! 0)),
             elems = map2 Complex (elems (hdu_data (rf ! 0))) (elems (hdu_data (rf ! 1)))\<rparr>,
          in_fwhmRMSFArr = hdu_data (rf ! 3),
          in_phi2Arr_radm2 = phi2\<rparr>"
proof -
  from assms(2) have fdf: "0 < length fdf" "Suc 0 < length fdf" by auto
  from assms(8) have rf: "0 < length rf" "Suc 0 < length rf" "3 < length rf" by auto
  from assms(3-5) have dirty: "complex_cube (hdu_data (fdf ! 0)) (hdu_data (fdf ! 1))
      = Inr \<lparr>shape = shape (hdu_data (fdf ! 0)),
             elems = map2 Complex (elems (hdu_data (fdf ! 0))) (elems (hdu_data (fdf ! 1)))\<rparr>"
    by (rule complex_cube_same_shape)
  from assms(9-11) have rmsf: "complex_cube (hdu_data (rf ! 0)) (hdu_data (rf ! 1))
      = Inr \<lparr>shape = shape (hdu_data (rf ! 0)),
             elems = map2 Complex (elems (hdu_data (rf ! 0))) (elems (hdu_data (rf ! 1)))\<rparr>"
    by (rule complex_cube_same_shape)
  from assms(1,6,7,12) fdf rf dirty rmsf show ?thesis
    by (simp add: read_cubes_def bind_result_def pf_open_def hdu_at_def)
qed

lemma run_rmclean_after_reading:
  assumes "read_cubes U w (arg_fitsFDF a) (arg_fitsRMSF a) = Inr inp"
    and "writable w (clean_fits_path a)" and "writable w (nIter_fits_path a)"
  shows "run_rmclean U w a =
     (case do_rmclean_hogbom U (amap (\<lambda>z. z * 1000) (in_dirtyFDF inp)) (in_phiArr_radm2 inp)
             (in_RMSFArr inp) (in_phi2Arr_radm2 inp) (in_fwhmRMSFArr inp)
             (arg_cutoff_mJy a) (arg_maxIter a) (arg_gain a) True False of
        Inl e \<Rightarrow> (w, Some e)
      | Inr (cleanFDF0, ccArr0, iterCountArr) \<Rightarrow>
          (w\<lparr>fits_files := (fits_files w)
               (clean_fits_path a \<mapsto>
                  clean_hdus (in_head inp) (amap (\<lambda>z. z / 1000) cleanFDF0)
                    (amap (\<lambda>z. z / 1000) ccArr0),
                nIter_fits_path a \<mapsto> nIter_hdus (in_head inp) iterCountArr)\<rparr>, None))"
  using assms
  by (simp add: run_rmclean_def writeto_def Let_def split: sum.splits prod.splits)
subsection \<open>The factor 1000 around the deconvolution\<close>

lemma amap_amap: "amap f (amap g a) = amap (\<lambda>x. f (g x)) a"
  by (simp add: amap_def o_def)

lemma amap_ident: "amap (\<lambda>x. x) a = a"
  by (simp add: amap_def)

lemma scale_cutoff_inverse: "scale_cutoff 1000 (scale_cutoff (1 / 1000) c) = c"
  by (cases c) (simp_all add: o_def)

lemma hogbom_in_milli_units:
  assumes "commutes_with_units U"
  shows "do_rmclean_hogbom U (amap (\<lambda>z. z * 1000) dirty) phi rmsf phi2 fwhm cutoff n g
            verbose plots
     = scale_products 1000
         (do_rmclean_hogbom U dirty phi rmsf phi2 fwhm (scale_cutoff (1 / 1000) cutoff) n g
            verbose plots)"
proof -
  have "0 < (1000::real)" by simp
  with assms have "do_rmclean_hogbom U (amap (\<lambda>z. z * of_real 1000) dirty) phi rmsf phi2 fwhm
        (scale_cutoff 1000 (scale_cutoff (1 / 1000) cutoff)) n g verbose plots
     = scale_products 1000
         (do_rmclean_hogbom U dirty phi rmsf phi2 fwhm (scale_cutoff (1 / 1000) cutoff) n g
            verbose plots)"
    unfolding commutes_with_units_def by blast
  then show ?thesis by (simp add: scale_cutoff_inverse)
qed

lemma planes_of_scaled_products:
  "map hdu_data (clean_hdus head (amap (\<lambda>z. z / 1000) cleanFDF0) (amap (\<lambda>z. z / 1000) ccArr0))
     = [amap (\<lambda>z. Re z / 1000) cleanFDF0, amap (\<lambda>z. Im z / 1000) cleanFDF0,
        amap (\<lambda>z. cmod z / 1000) cleanFDF0, amap (\<lambda>z. Re z / 1000) ccArr0]"
  by (simp add: clean_hdus_def amap_amap norm_divide)

text \<open>
  Claim C8. Take two input files whose units 0 and 1 are planes of one shape, and output
  paths that can be written. \<^verbatim>\<open>run_rmclean\<close> then calls \<^verbatim>\<open>do_rmclean_hogbom\<close> once, on the dirty
  FDF multiplied by 1000 and with the cutoff as it received it. If the call fails, so does
  the run, and if it returns, the run succeeds and writes the clean FDF and the clean
  components divided by 1000, and the iteration counts as returned. For a deconvolution
  that commutes with a change of unit the run is a run of the deconvolution on the dirty
  FDF in its own unit, with the cutoff divided by 1000, whose products are written
  unscaled: the cutoff is a number of thousandths of the unit of the input.
\<close>

theorem run_rmclean_scaling:
  assumes "fits_files w (arg_fitsFDF a) = Some fdf" and "2 \<le> length fdf"
    and "shape (hdu_data (fdf ! 0)) = shape (hdu_data (fdf ! 1))"
    and "wf_array (hdu_data (fdf ! 0))" and "wf_array (hdu_data (fdf ! 1))"
    and "fits_make_lin_axis U (hdu_header (fdf ! 0)) 2 = Inr phi"
    and "fits_files w (arg_fitsRMSF a) = Some rf" and "4 \<le> length rf"
    and "shape (hdu_data (rf ! 0)) = shape (hdu_data (rf ! 1))"
    and "wf_array (hdu_data (rf ! 0))" and "wf_array (hdu_data (rf ! 1))"
    and "fits_make_lin_axis U (hdu_header (rf ! 0)) 2 = Inr phi2"
    and "writable w (clean_fits_path a)" and "writable w (nIter_fits_path a)"
    and "dirtyFDF = \<lparr>shape = shape (hdu_data (fdf ! 0)),
           elems = map2 Complex (elems (hdu_data (fdf ! 0))) (elems (hdu_data (fdf ! 1)))\<rparr>"
    and "RMSFArr = \<lparr>shape = shape (hdu_data (rf ! 0)),
           elems = map2 Complex (elems (hdu_data (rf ! 0))) (elems (hdu_data (rf ! 1)))\<rparr>"
  shows "run_rmclean U w a =
       (case do_rmclean_hogbom U (amap (\<lambda>z. z * 1000) dirtyFDF) phi RMSFArr phi2
               (hdu_data (rf ! 3)) (arg_cutoff_mJy a) (arg_maxIter a) (arg_gain a) True False of
          Inl e \<Rightarrow> (w, Some e)
        | Inr (cleanFDF0, ccArr0, iterCountArr) \<Rightarrow>
            (w\<lparr>fits_files := (fits_files w)
                 (clean_fits_path a \<mapsto>
                    clean_hdus (hdu_header (fdf ! 0)) (amap (\<lambda>z. z / 1000) cleanFDF0)
                      (amap (\<lambda>z. z / 1000) ccArr0),
                  nIter_fits_path a \<mapsto> nIter_hdus (hdu_header (fdf ! 0)) iterCountArr)\<rparr>,
             None))
     \<and> (\<forall>cleanFDF0 ccArr0.
          map hdu_data (clean_hdus (hdu_header (fdf ! 0)) (amap (\<lambda>z. z / 1000) cleanFDF0)
              (amap (\<lambda>z. z / 1000) ccArr0))
            = [amap (\<lambda>z. Re z / 1000) cleanFDF0, amap (\<lambda>z. Im z / 1000) cleanFDF0,
               amap (\<lambda>z. cmod z / 1000) cleanFDF0, amap (\<lambda>z. Re z / 1000) ccArr0])
     \<and> (commutes_with_units U \<longrightarrow>
          run_rmclean U w a =
            (case do_rmclean_hogbom U dirtyFDF phi RMSFArr phi2 (hdu_data (rf ! 3))
                    (scale_cutoff (1 / 1000) (arg_cutoff_mJy a)) (arg_maxIter a) (arg_gain a)
                    True False of
               Inl e \<Rightarrow> (w, Some e)
             | Inr (cleanFDF, ccArr, iterCountArr) \<Rightarrow>
                 (w\<lparr>fits_files := (fits_files w)
                      (clean_fits_path a \<mapsto> clean_hdus (hdu_header (fdf ! 0)) cleanFDF ccArr,
                       nIter_fits_path a \<mapsto> nIter_hdus (hdu_header (fdf ! 0)) iterCountArr)\<rparr>,
                  None)))"
proof -
  let ?inp = "\<lparr>in_head = hdu_header (fdf ! 0), in_dirtyFDF = dirtyFDF, in_phiArr_radm2 = phi,
      in_RMSFArr = RMSFArr, in_fwhmRMSFArr = hdu_data (rf ! 3), in_phi2Arr_radm2 = phi2\<rparr>"
  have "read_cubes U w (arg_fitsFDF a) (arg_fitsRMSF a) = Inr ?inp"
    unfolding assms(15,16) using assms(1-12) by (rule read_cubes_succeeds)
  from run_rmclean_after_reading [OF this assms(13,14)]
  have run: "run_rmclean U w a =
       (case do_rmclean_hogbom U (amap (\<lambda>z. z * 1000) dirtyFDF) phi RMSFArr phi2
               (hdu_data (rf ! 3)) (arg_cutoff_mJy a) (arg_maxIter a) (arg_gain a) True False of
          Inl e \<Rightarrow> (w, Some e)
        | Inr (cleanFDF0, ccArr0, iterCountArr) \<Rightarrow>
            (w\<lparr>fits_files := (fits_files w)
                 (clean_fits_path a \<mapsto>
                    clean_hdus (hdu_header (fdf ! 0)) (amap (\<lambda>z. z / 1000) cleanFDF0)
                      (amap (\<lambda>z. z / 1000) ccArr0),
                  nIter_fits_path a \<mapsto> nIter_hdus (hdu_header (fdf ! 0)) iterCountArr)\<rparr>,
             None))"
    by (simp split: sum.splits prod.splits)
  have units: "run_rmclean U w a =
            (case do_rmclean_hogbom U dirtyFDF phi RMSFArr phi2 (hdu_data (rf ! 3))
                    (scale_cutoff (1 / 1000) (arg_cutoff_mJy a)) (arg_maxIter a) (arg_gain a)
                    True False of
               Inl e \<Rightarrow> (w, Some e)
             | Inr (cleanFDF, ccArr, iterCountArr) \<Rightarrow>
                 (w\<lparr>fits_files := (fits_files w)
                      (clean_fits_path a \<mapsto> clean_hdus (hdu_header (fdf ! 0)) cleanFDF ccArr,
                       nIter_fits_path a \<mapsto> nIter_hdus (hdu_header (fdf ! 0)) iterCountArr)\<rparr>,
                  None))"
    if "commutes_with_units U"
    unfolding run hogbom_in_milli_units [OF that]
    by (simp add: scale_products_def amap_amap amap_ident
        split: sum.splits prod.splits)
  from run units planes_of_scaled_products show ?thesis
    by (intro conjI allI impI)
qed

subsection \<open>The stand-in deconvolution\<close>

lemma cutoff_number_scale:
  "cutoff_number (scale_cutoff s c) = map_option (\<lambda>x. s * x) (cutoff_number c)"
  by (cases c rule: cutoff_number.cases) simp_all

lemma cmod_scaled:
  assumes "0 < s"
  shows "s * c \<le> cmod (z * of_real s) \<longleftrightarrow> c \<le> cmod z"
  using assms by (simp add: norm_mult mult.commute)

lemma one_pass_commutes_with_units: "commutes_with_units demo_rmutils"
  unfolding commutes_with_units_def
proof (intro allI impI)
  fix s :: real and dirty phi rmsf phi2 fwhm cutoff n g verbose plots
  assume s: "0 < s"
  show "do_rmclean_hogbom demo_rmutils (amap (\<lambda>z. z * of_real s) dirty) phi rmsf phi2 fwhm
            (scale_cutoff s cutoff) n g verbose plots
          = scale_products s
              (do_rmclean_hogbom demo_rmutils dirty phi rmsf phi2 fwhm cutoff n g verbose plots)"
  proof (cases "cutoff_number cutoff")
    case None
    then show ?thesis
      by (simp add: demo_rmutils_def one_pass_def scale_products_def cutoff_number_scale)
  next
    case (Some c)
    have "filter (\<lambda>z. s * c \<le> cmod z) (map (\<lambda>z. z * of_real s) xs)
        = map (\<lambda>z. z * of_real s) (filter (\<lambda>z. c \<le> cmod z) xs)" for xs
      by (induction xs) (simp_all add: cmod_scaled [OF s])
    with Some show ?thesis
      by (simp add: demo_rmutils_def one_pass_def scale_products_def cutoff_number_scale
          amap_def cmod_scaled [OF s])
  qed
qed

lemma cmod_Complex_axis: "cmod (Complex x 0) = \<bar>x\<bar>" "cmod (Complex 0 y) = \<bar>y\<bar>"
  by (simp_all add: cmod_def)

lemma Complex_times_1000: "Complex x y * 1000 = Complex (x * 1000) (y * 1000)"
  by (simp add: complex_eq_iff)

lemma Complex_div_1000: "Complex x y / 1000 = Complex (x / 1000) (y / 1000)"
  by (simp add: complex_eq_iff)

lemma demo_paths:
  "clean_fits_path demo_call = ''d/FDF_clean.fits''"
  "nIter_fits_path demo_call = ''d/CLEAN_nIter.fits''"
  by (simp_all add: clean_fits_path_def nIter_fits_path_def demo_call_def)

lemma demo_hogbom:
  "do_rmclean_hogbom demo_rmutils
       \<lparr>shape = [2], elems = [Complex 3000 0, Complex 0 (- 2000)]\<rparr>
       [0] rmsf [0] fwhm (Cutoff_list [2500]) 1000 (1 / 10) True False
     = Inr (\<lparr>shape = [2], elems = [Complex 3000 0, Complex 0 (- 2000)]\<rparr>,
            \<lparr>shape = [2], elems = [Complex 300 0, Complex 0 0]\<rparr>,
            \<lparr>shape = [], elems = [1]\<rparr>)"
  by (simp add: demo_rmutils_def one_pass_def amap_def cmod_Complex_axis complex_eq_iff)

lemma demo_hogbom_own_unit:
  "do_rmclean_hogbom demo_rmutils
       \<lparr>shape = [2], elems = [Complex 3 0, Complex 0 (- 2)]\<rparr>
       [0] rmsf [0] fwhm (Cutoff_list [5 / 2]) 1000 (1 / 10) True False
     = Inr (\<lparr>shape = [2], elems = [Complex 3 0, Complex 0 (- 2)]\<rparr>,
            \<lparr>shape = [2], elems = [Complex (3 / 10) 0, Complex 0 0]\<rparr>,
            \<lparr>shape = [], elems = [1]\<rparr>)"
  by (simp add: demo_rmutils_def one_pass_def amap_def cmod_Complex_axis complex_eq_iff)

text \<open>
  A run of the theorem on the first world, with the cutoff 2500 typed after \<^verbatim>\<open>-c\<close>. The
  dirty FDF holds the amplitudes 3 and 2. The deconvolution is handed the amplitudes 3000
  and 2000, of which only the first reaches 2500; the run is the run on the amplitudes 3
  and 2 with the cutoff 2.5, and the files hold its products.
\<close>

theorem run_rmclean_scaling_witness:
  "commutes_with_units demo_rmutils
   \<and> do_rmclean_hogbom demo_rmutils
         \<lparr>shape = [2], elems = [Complex 3000 0, Complex 0 (- 2000)]\<rparr> [0]
         \<lparr>shape = [3], elems = [Complex 0 0, Complex 1 0, Complex 0 0]\<rparr> [0]
         \<lparr>shape = [], elems = [2]\<rparr> (Cutoff_list [2500]) 1000 (1 / 10) True False
       = Inr (\<lparr>shape = [2], elems = [Complex 3000 0, Complex 0 (- 2000)]\<rparr>,
              \<lparr>shape = [2], elems = [Complex 300 0, Complex 0 0]\<rparr>,
              \<lparr>shape = [], elems = [1]\<rparr>)
   \<and> do_rmclean_hogbom demo_rmutils
         \<lparr>shape = [2], elems = [Complex 3 0, Complex 0 (- 2)]\<rparr> [0]
         \<lparr>shape = [3], elems = [Complex 0 0, Complex 1 0, Complex 0 0]\<rparr> [0]
         \<lparr>shape = [], elems = [2]\<rparr> (Cutoff_list [5 / 2]) 1000 (1 / 10) True False
       = Inr (\<lparr>shape = [2], elems = [Complex 3 0, Complex 0 (- 2)]\<rparr>,
              \<lparr>shape = [2], elems = [Complex (3 / 10) 0, Complex 0 0]\<rparr>,
              \<lparr>shape = [], elems = [1]\<rparr>)
   \<and> run_rmclean demo_rmutils demo_world demo_call =
     (demo_world\<lparr>fits_files := (fits_files demo_world)
        (''d/FDF_clean.fits'' \<mapsto>
           [\<lparr>hdu_data = \<lparr>shape = [2], elems = [3, 0]\<rparr>,
             hdu_header = [(''BUNIT'', ''Jy/beam'')]\<rparr>,
            \<lparr>hdu_data = \<lparr>shape = [2], elems = [0, - 2]\<rparr>,
             hdu_header = [(''BUNIT'', ''Jy/beam'')]\<rparr>,
            \<lparr>hdu_data = \<lparr>shape = [2], elems = [3, 2]\<rparr>,
             hdu_header = [(''BUNIT'', ''Jy/beam'')]\<rparr>,
            \<lparr>hdu_data = \<lparr>shape = [2], elems = [3 / 10, 0]\<rparr>,
             hdu_header = [(''BUNIT'', ''Jy/beam'')]\<rparr>],
         ''d/CLEAN_nIter.fits'' \<mapsto>
           [\<lparr>hdu_data = \<lparr>shape = [], elems = [1]\<rparr>,
             hdu_header = [(''BUNIT'', ''Iterations'')]\<rparr>])\<rparr>, None)"
proof -
  let ?fdf = "[\<lparr>hdu_data = \<lparr>shape = [2], elems = [3, 0]\<rparr>,
                hdu_header = [(''BUNIT'', ''Jy/beam'')]\<rparr>,
              \<lparr>hdu_data = \<lparr>shape = [2], elems = [0, - 2]\<rparr>, hdu_header = []\<rparr>]"
  let ?dirty = "\<lparr>shape = [2], elems = [Complex 3 0, Complex 0 (- 2)]\<rparr>"
  let ?rmsf = "\<lparr>shape = [3], elems = [Complex 0 0, Complex 1 0, Complex 0 0]\<rparr>"
  have a1: "fits_files demo_world (arg_fitsFDF demo_call) = Some ?fdf"
    by (simp add: demo_world_def demo_call_def)
  have a2: "2 \<le> length ?fdf" by simp
  have a3: "shape (hdu_data (?fdf ! 0)) = shape (hdu_data (?fdf ! 1))" by simp
  have a4: "wf_array (hdu_data (?fdf ! 0))" by (simp add: wf_array_def)
  have a5: "wf_array (hdu_data (?fdf ! 1))" by (simp add: wf_array_def)
  have a6: "fits_make_lin_axis demo_rmutils (hdu_header (?fdf ! 0)) 2 = Inr [0]"
    by (simp add: demo_rmutils_def)
  have a7: "fits_files demo_world (arg_fitsRMSF demo_call) = Some demo_rmsf_file"
    by (simp add: demo_world_def demo_call_def)
  have a8: "4 \<le> length demo_rmsf_file" by (simp add: demo_rmsf_file_def)
  have a9: "shape (hdu_data (demo_rmsf_file ! 0)) = shape (hdu_data (demo_rmsf_file ! 1))"
    by (simp add: demo_rmsf_file_def)
  have a10: "wf_array (hdu_data (demo_rmsf_file ! 0))"
    by (simp add: demo_rmsf_file_def wf_array_def)
  have a11: "wf_array (hdu_data (demo_rmsf_file ! 1))"
    by (simp add: demo_rmsf_file_def wf_array_def)
  have a12: "fits_make_lin_axis demo_rmutils (hdu_header (demo_rmsf_file ! 0)) 2 = Inr [0]"
    by (simp add: demo_rmutils_def)
  have a13: "writable demo_world (clean_fits_path demo_call)" by (simp add: demo_world_def)
  have a14: "writable demo_world (nIter_fits_path demo_call)" by (simp add: demo_world_def)
  have a15: "?dirty = \<lparr>shape = shape (hdu_data (?fdf ! 0)),
      elems = map2 Complex (elems (hdu_data (?fdf ! 0))) (elems (hdu_data (?fdf ! 1)))\<rparr>"
    by simp
  have a16: "?rmsf = \<lparr>shape = shape (hdu_data (demo_rmsf_file ! 0)),
      elems = map2 Complex (elems (hdu_data (demo_rmsf_file ! 0)))
                (elems (hdu_data (demo_rmsf_file ! 1)))\<rparr>"
    by (simp add: demo_rmsf_file_def)
  have fwhm: "hdu_data (demo_rmsf_file ! 3) = \<lparr>shape = [], elems = [2]\<rparr>"
    by (simp add: demo_rmsf_file_def)
  have args: "arg_cutoff_mJy demo_call = Cutoff_list [2500]" "arg_maxIter demo_call = 1000"
      "arg_gain demo_call = 1 / 10"
    by (simp_all add: demo_call_def)
  from run_rmclean_scaling [OF a1 a2 a3 a4 a5 a6 a7 a8 a9 a10 a11 a12 a13 a14 a15 a16]
    one_pass_commutes_with_units
  have "run_rmclean demo_rmutils demo_world demo_call =
            (case do_rmclean_hogbom demo_rmutils ?dirty [0] ?rmsf [0]
                    (hdu_data (demo_rmsf_file ! 3))
                    (scale_cutoff (1 / 1000) (arg_cutoff_mJy demo_call))
                    (arg_maxIter demo_call) (arg_gain demo_call) True False of
               Inl e \<Rightarrow> (demo_world, Some e)
             | Inr (cleanFDF, ccArr, iterCountArr) \<Rightarrow>
                 (demo_world\<lparr>fits_files := (fits_files demo_world)
                      (clean_fits_path demo_call \<mapsto>
                         clean_hdus (hdu_header (?fdf ! 0)) cleanFDF ccArr,
                       nIter_fits_path demo_call \<mapsto>
                         nIter_hdus (hdu_header (?fdf ! 0)) iterCountArr)\<rparr>,
                  None))"
    by blast
  then have run: "run_rmclean demo_rmutils demo_world demo_call =
     (demo_world\<lparr>fits_files := (fits_files demo_world)
        (''d/FDF_clean.fits'' \<mapsto>
           [\<lparr>hdu_data = \<lparr>shape = [2], elems = [3, 0]\<rparr>,
             hdu_header = [(''BUNIT'', ''Jy/beam'')]\<rparr>,
            \<lparr>hdu_data = \<lparr>shape = [2], elems = [0, - 2]\<rparr>,
             hdu_header = [(''BUNIT'', ''Jy/beam'')]\<rparr>,
            \<lparr>hdu_data = \<lparr>shape = [2], elems = [3, 2]\<rparr>,
             hdu_header = [(''BUNIT'', ''Jy/beam'')]\<rparr>,
            \<lparr>hdu_data = \<lparr>shape = [2], elems = [3 / 10, 0]\<rparr>,
             hdu_header = [(''BUNIT'', ''Jy/beam'')]\<rparr>],
         ''d/CLEAN_nIter.fits'' \<mapsto>
           [\<lparr>hdu_data = \<lparr>shape = [], elems = [1]\<rparr>,
             hdu_header = [(''BUNIT'', ''Iterations'')]\<rparr>])\<rparr>, None)"
    by (simp add: fwhm args demo_hogbom_own_unit demo_paths clean_hdus_def nIter_hdus_def
        amap_def cmod_Complex_axis)
  from one_pass_commutes_with_units demo_hogbom demo_hogbom_own_unit run show ?thesis
    by (intro conjI)
qed

subsection \<open>The plane of clean components\<close>

lemma clean_hdus_real_part_only:
  "amap Re ccArr = amap Re ccArr' \<Longrightarrow> clean_hdus head cleanFDF ccArr = clean_hdus head cleanFDF ccArr'"
  by (simp add: clean_hdus_def)

lemma imaginary_read:
  "read_cubes demo_rmutils imaginary_world (arg_fitsFDF demo_call) (arg_fitsRMSF demo_call) =
     Inr \<lparr>in_head = [(''BUNIT'', ''Jy/beam'')],
          in_dirtyFDF = \<lparr>shape = [2], elems = [Complex 0 10, Complex 0 (- 20)]\<rparr>,
          in_phiArr_radm2 = [0],
          in_RMSFArr = \<lparr>shape = [3], elems = [Complex 0 0, Complex 1 0, Complex 0 0]\<rparr>,
          in_fwhmRMSFArr = \<lparr>shape = [], elems = [2]\<rparr>,
          in_phi2Arr_radm2 = [0]\<rparr>"
  by (simp add: read_cubes_def bind_result_def pf_open_def hdu_at_def imaginary_world_def
      demo_call_def demo_rmsf_file_def demo_rmutils_def complex_cube_same_shape wf_array_def)

lemma imaginary_hogbom:
  "do_rmclean_hogbom demo_rmutils
       \<lparr>shape = [2], elems = [Complex 0 10000, Complex 0 (- 20000)]\<rparr>
       [0] rmsf [0] fwhm (Cutoff_list [2500]) 1000 (1 / 10) True False
     = Inr (\<lparr>shape = [2], elems = [Complex 0 10000, Complex 0 (- 20000)]\<rparr>,
            \<lparr>shape = [2], elems = [Complex 0 1000, Complex 0 (- 2000)]\<rparr>,
            \<lparr>shape = [], elems = [2]\<rparr>)"
  by (simp add: demo_rmutils_def one_pass_def amap_def cmod_Complex_axis complex_eq_iff)

text \<open>
  Claim C7 says that the fourth plane of \<^verbatim>\<open>FDF_clean.fits\<close> is the array of clean
  components. In the second world the deconvolution returns the components 1000i and
  -2000i, so the clean components of the run are i and -2i. The run writes its two files,
  with the real part, the imaginary part and the amplitude of the clean FDF in the first
  three planes, but the fourth plane holds 0 and 0: the cast to a float type has dropped
  the imaginary parts, and the components cannot be read back from the file.
\<close>

theorem run_rmclean_component_plane:
  "do_rmclean_hogbom demo_rmutils
         \<lparr>shape = [2], elems = [Complex 0 10000, Complex 0 (- 20000)]\<rparr> [0]
         \<lparr>shape = [3], elems = [Complex 0 0, Complex 1 0, Complex 0 0]\<rparr> [0]
         \<lparr>shape = [], elems = [2]\<rparr> (Cutoff_list [2500]) 1000 (1 / 10) True False
       = Inr (\<lparr>shape = [2], elems = [Complex 0 10000, Complex 0 (- 20000)]\<rparr>,
              \<lparr>shape = [2], elems = [Complex 0 1000, Complex 0 (- 2000)]\<rparr>,
              \<lparr>shape = [], elems = [2]\<rparr>)
   \<and> run_rmclean demo_rmutils imaginary_world demo_call =
     (imaginary_world\<lparr>fits_files := (fits_files imaginary_world)
        (''d/FDF_clean.fits'' \<mapsto>
           [\<lparr>hdu_data = \<lparr>shape = [2], elems = [0, 0]\<rparr>,
             hdu_header = [(''BUNIT'', ''Jy/beam'')]\<rparr>,
            \<lparr>hdu_data = \<lparr>shape = [2], elems = [10, - 20]\<rparr>,
             hdu_header = [(''BUNIT'', ''Jy/beam'')]\<rparr>,
            \<lparr>hdu_data = \<lparr>shape = [2], elems = [10, 20]\<rparr>,
             hdu_header = [(''BUNIT'', ''Jy/beam'')]\<rparr>,
            \<lparr>hdu_data = \<lparr>shape = [2], elems = [0, 0]\<rparr>,
             hdu_header = [(''BUNIT'', ''Jy/beam'')]\<rparr>],
         ''d/CLEAN_nIter.fits'' \<mapsto>
           [\<lparr>hdu_data = \<lparr>shape = [], elems = [2]\<rparr>,
             hdu_header = [(''BUNIT'', ''Iterations'')]\<rparr>])\<rparr>, None)"
proof -
  have wr: "writable imaginary_world (clean_fits_path demo_call)"
      "writable imaginary_world (nIter_fits_path demo_call)"
    by (simp_all add: imaginary_world_def)
  have args: "arg_cutoff_mJy demo_call = Cutoff_list [2500]" "arg_maxIter demo_call = 1000"
      "arg_gain demo_call = 1 / 10"
    by (simp_all add: demo_call_def)
  have "run_rmclean demo_rmutils imaginary_world demo_call =
     (imaginary_world\<lparr>fits_files := (fits_files imaginary_world)
        (''d/FDF_clean.fits'' \<mapsto>
           [\<lparr>hdu_data = \<lparr>shape = [2], elems = [0, 0]\<rparr>,
             hdu_header = [(''BUNIT'', ''Jy/beam'')]\<rparr>,
            \<lparr>hdu_data = \<lparr>shape = [2], elems = [10, - 20]\<rparr>,
             hdu_header = [(''BUNIT'', ''Jy/beam'')]\<rparr>,
            \<lparr>hdu_data = \<lparr>shape = [2], elems = [10, 20]\<rparr>,
             hdu_header = [(''BUNIT'', ''Jy/beam'')]\<rparr>,
            \<lparr>hdu_data = \<lparr>shape = [2], elems = [0, 0]\<rparr>,
             hdu_header = [(''BUNIT'', ''Jy/beam'')]\<rparr>],
         ''d/CLEAN_nIter.fits'' \<mapsto>
           [\<lparr>hdu_data = \<lparr>shape = [], elems = [2]\<rparr>,
             hdu_header = [(''BUNIT'', ''Iterations'')]\<rparr>])\<rparr>, None)"
    unfolding run_rmclean_after_reading [OF imaginary_read wr]
    by (simp add: args imaginary_hogbom demo_paths clean_hdus_def nIter_hdus_def amap_def
        Complex_times_1000 Complex_div_1000 cmod_Complex_axis)
  with imaginary_hogbom show ?thesis by (intro conjI)
qed


section \<open>Properties of the flag-pattern registry\<close>

lemma find_pattern_None: "find_pattern k ps = None \<longleftrightarrow> k \<notin> fst ` set ps"
  by (induction ps) auto

lemma find_pattern_Some:
  "find_pattern k ps = Some i \<Longrightarrow> i < length ps \<and> fst (ps ! i) = k"
proof (induction ps arbitrary: i)
  case Nil
  then show ?case by simp
next
  case (Cons p ps)
  then show ?case by (auto split: if_splits)
qed

lemma registry_inv_empty: "registry_inv sig mask_of empty_registry"
  by (simp add: registry_inv_def empty_registry_def)

lemma registry_inv_step:
  assumes "registry_inv sig mask_of reg"
  shows "registry_inv sig mask_of (register_pixel sig mask_of reg px)"
proof (cases "find_pattern (sig (mask_of px)) (patterns reg)")
  case None
  then have fresh: "sig (mask_of px) \<notin> fst ` set (patterns reg)"
    by (simp add: find_pattern_None)
  let ?reg' = "reg\<lparr>patterns := patterns reg @ [(sig (mask_of px), mask_of px)],
                   lookup := (lookup reg)(px \<mapsto> length (patterns reg))\<rparr>"
  have eq: "register_pixel sig mask_of reg px = ?reg'"
    using None by (simp add: register_pixel_def Let_def)
  have d: "distinct (map fst (patterns ?reg'))"
    using assms fresh by (simp add: registry_inv_def)
  have l: "pid < length (patterns ?reg') \<and> fst (patterns ?reg' ! pid) = sig (mask_of q)"
    if "lookup ?reg' q = Some pid" for q pid
  proof (cases "q = px")
    case True
    with that show ?thesis by (simp add: nth_append)
  next
    case False
    with that have "lookup reg q = Some pid" by simp
    with assms have "pid < length (patterns reg) \<and> fst (patterns reg ! pid) = sig (mask_of q)"
      by (simp add: registry_inv_def)
    then show ?thesis by (simp add: nth_append)
  qed
  from d l show ?thesis unfolding eq registry_inv_def by blast
next
  case (Some pid)
  from find_pattern_Some [OF Some] assms Some show ?thesis
    by (auto simp add: registry_inv_def register_pixel_def Let_def)
qed

lemma registry_inv_fold:
  "registry_inv sig mask_of reg \<Longrightarrow>
     registry_inv sig mask_of (foldl (register_pixel sig mask_of) reg order)"
  by (induction order arbitrary: reg) (simp_all add: registry_inv_step)

lemma dom_register_pixel:
  "dom (lookup (register_pixel sig mask_of reg px)) = insert px (dom (lookup reg))"
  by (simp add: register_pixel_def Let_def split: option.splits)

lemma dom_fold_register:
  "dom (lookup (foldl (register_pixel sig mask_of) reg order)) = dom (lookup reg) \<union> set order"
  by (induction order arbitrary: reg) (simp_all add: dom_register_pixel)

lemma dom_build_registry: "dom (lookup (build_registry sig masks order)) = set order"
  by (simp add: build_registry_def dom_fold_register empty_registry_def)

lemma build_registry_inv:
  "registry_inv sig (\<lambda>px. masks ! px) (build_registry sig masks order)"
  by (simp add: build_registry_def registry_inv_fold registry_inv_empty)

lemma same_signature_same_pattern:
  assumes inv: "registry_inv sig mask_of reg"
    and p: "lookup reg p = Some i" and q: "lookup reg q = Some j"
    and same: "sig (mask_of p) = sig (mask_of q)"
  shows "i = j"
proof -
  from inv p have i: "i < length (patterns reg)" "fst (patterns reg ! i) = sig (mask_of p)"
    by (simp_all add: registry_inv_def)
  from inv q have j: "j < length (patterns reg)" "fst (patterns reg ! j) = sig (mask_of q)"
    by (simp_all add: registry_inv_def)
  from inv have "distinct (map fst (patterns reg))"
    by (simp add: registry_inv_def)
  with i j same nth_eq_iff_index_eq [of "map fst (patterns reg)" i j]
  show ?thesis by simp
qed

text \<open>
  Claim C4. Once every pixel has been processed, in whatever order, every pixel is looked
  up to exactly one pattern id, which is the position of a pattern of the registry; two
  pixels with identical validity masks are looked up to the same id, and therefore refer
  to the same array of the RMSF table.
\<close>

theorem registry_same_mask_same_pattern:
  assumes "set order = {..<length masks}"
  shows "(\<forall>px<length masks. \<exists>pid.
            lookup (build_registry sig masks order) px = Some pid
            \<and> pid < length (patterns (build_registry sig masks order)))
       \<and> (\<forall>p<length masks. \<forall>q<length masks. masks ! p = masks ! q \<longrightarrow>
            lookup (build_registry sig masks order) p
              = lookup (build_registry sig masks order) q
            \<and> rmsf_of_pixel build (build_registry sig masks order) p
              = rmsf_of_pixel build (build_registry sig masks order) q
            \<and> rmsf_of_pixel build (build_registry sig masks order) p \<noteq> None)"
proof -
  let ?reg = "build_registry sig masks order"
  have inv: "registry_inv sig (\<lambda>px. masks ! px) ?reg"
    by (rule build_registry_inv)
  have defined: "\<exists>pid. lookup ?reg px = Some pid \<and> pid < length (patterns ?reg)"
    if "px < length masks" for px
  proof -
    from that assms have "px \<in> dom (lookup ?reg)"
      by (simp add: dom_build_registry)
    then obtain pid where "lookup ?reg px = Some pid" by blast
    with inv show ?thesis by (auto simp add: registry_inv_def)
  qed
  have shared: "lookup ?reg p = lookup ?reg q
            \<and> rmsf_of_pixel build ?reg p = rmsf_of_pixel build ?reg q
            \<and> rmsf_of_pixel build ?reg p \<noteq> None"
    if "p < length masks" "q < length masks" "masks ! p = masks ! q" for p q
  proof -
    from defined [OF that(1)] obtain i where
      i: "lookup ?reg p = Some i" "i < length (patterns ?reg)" by blast
    from defined [OF that(2)] obtain j where
      j: "lookup ?reg q = Some j" by blast
    from same_signature_same_pattern [OF inv i(1) j] that(3) have "i = j" by simp
    with i j show ?thesis by (simp add: rmsf_of_pixel_def)
  qed
  from defined shared show ?thesis by blast
qed

theorem registry_same_mask_same_pattern_witness:
  "(let masks = [[True, False], [True, True], [True, False]];
        reg = build_registry bit_packed masks [2, 0, 1];
        reg' = build_registry bit_packed masks [0, 1, 2]
    in set [2, 0, 1] = {..<length masks} \<and> masks ! 0 = masks ! 2
       \<and> lookup reg 0 = lookup reg 2 \<and> lookup reg 0 = Some 0 \<and> lookup reg 1 = Some 1
       \<and> lookup reg' 0 = lookup reg' 2
       \<and> rmsf_of_pixel (\<lambda>m. m) reg 0 = rmsf_of_pixel (\<lambda>m. m) reg 2)"
proof -
  let ?masks = "[[True, False], [True, True], [True, False]]"
  have h: "set [2, 0, 1] = {..<length ?masks}" by auto
  have h': "set [0, 1, 2] = {..<length ?masks}" by auto
  from registry_same_mask_same_pattern [OF h, of bit_packed "\<lambda>m. m"]
  have a: "lookup (build_registry bit_packed ?masks [2, 0, 1]) 0
             = lookup (build_registry bit_packed ?masks [2, 0, 1]) 2
         \<and> rmsf_of_pixel (\<lambda>m. m) (build_registry bit_packed ?masks [2, 0, 1]) 0
             = rmsf_of_pixel (\<lambda>m. m) (build_registry bit_packed ?masks [2, 0, 1]) 2"
    by simp
  from registry_same_mask_same_pattern [OF h', of bit_packed "\<lambda>m. m"]
  have b: "lookup (build_registry bit_packed ?masks [0, 1, 2]) 0
             = lookup (build_registry bit_packed ?masks [0, 1, 2]) 2"
    by simp
  have c: "lookup (build_registry bit_packed ?masks [2, 0, 1]) 0 = Some 0
         \<and> lookup (build_registry bit_packed ?masks [2, 0, 1]) 1 = Some 1"
    by (simp add: build_registry_def register_pixel_def empty_registry_def Let_def)
  from a b c h show ?thesis by (simp add: Let_def)
qed


section \<open>Properties of the synthesis and of the RMSF\<close>

subsection \<open>Weights\<close>

lemma frequency_model_weights_positive:
  assumes "frequency_model freqs mode noise = Inr (ls, base)"
  shows "\<forall>w\<in>set base. 0 < w"
proof (cases mode)
  case Uniform
  with assms show ?thesis
    by (auto simp add: frequency_model_def Let_def)
next
  case Variance
  with assms obtain sigmas where "noise = Some sigmas" "\<not> list_ex (\<lambda>s. s \<le> 0) sigmas"
      "base = map (\<lambda>s. 1 / s\<^sup>2) sigmas"
    by (auto simp add: frequency_model_def Let_def split: option.splits if_splits)
  then show ?thesis
    by (auto simp add: list_ex_iff not_le)
qed

lemma pixel_weights_nth:
  "c < length base \<Longrightarrow> c < length valid \<Longrightarrow>
     pixel_weights base valid ! c = (if valid ! c then base ! c else 0)"
  by (simp add: pixel_weights_def)

lemma length_pixel_weights:
  "length (pixel_weights base valid) = min (length base) (length valid)"
  by (simp add: pixel_weights_def)

lemma pixel_weights_nonneg:
  assumes "\<forall>w\<in>set base. 0 < w" and "x \<in> set (pixel_weights base valid)"
  shows "0 \<le> x"
proof -
  from assms(2) obtain w v where "(w, v) \<in> set (zip base valid)" "x = (if v then w else 0)"
    by (auto simp add: pixel_weights_def)
  moreover then have "w \<in> set base" by (auto dest: set_zip_leftD)
  ultimately show ?thesis using assms(1) by (auto intro: less_imp_le)
qed

lemma member_le_sum_list_real:
  fixes xs :: "real list"
  assumes "\<forall>y\<in>set xs. 0 \<le> y" and "x \<in> set xs"
  shows "x \<le> sum_list xs"
  using assms
proof (induction xs)
  case Nil
  then show ?case by simp
next
  case (Cons y ys)
  have "0 \<le> sum_list ys" using Cons.prems(1) by (intro sum_list_nonneg) simp
  with Cons show ?case by auto
qed

lemma sum_pixel_weights_positive:
  assumes "\<forall>w\<in>set base. 0 < w" and "c < length base" and "c < length valid" and "valid ! c"
  shows "0 < sum_list (pixel_weights base valid)"
proof -
  let ?ws = "pixel_weights base valid"
  from assms have "0 < ?ws ! c" by (simp add: pixel_weights_nth)
  moreover from assms have "?ws ! c \<in> set ?ws" by (simp add: length_pixel_weights)
  then have "?ws ! c \<le> sum_list ?ws"
    using pixel_weights_nonneg [OF assms(1)] by (intro member_le_sum_list_real) auto
  ultimately show ?thesis by simp
qed

subsection \<open>The RMSF at depth zero\<close>

lemma rotate_and_sum_unit_zero:
  "length ws \<le> length ls \<Longrightarrow>
     rotate_and_sum 0 l0 ws (map (\<lambda>l. 1) ls) ls = of_real (sum_list ws)"
proof (induction ws arbitrary: ls)
  case Nil
  then show ?case by simp
next
  case (Cons w ws)
  then obtain l ls' where "ls = l # ls'" by (cases ls) simp_all
  with Cons show ?case by simp
qed

text \<open>
  Claim C3. The weights of a pattern are the base weights of the frequency model, which
  are positive, at its valid channels and zero elsewhere. When the pattern has a valid
  channel, the RMSF built over the doubled axis is exactly 1 at every sample whose depth is
  0.
\<close>

theorem build_rmsf_unit_peak:
  assumes "frequency_model freqs mode noise = Inr (ls, base)"
    and "length base = length ls"
    and "\<exists>c<length base. c < length valid \<and> valid ! c"
    and "k < length phi2s" and "phi2s ! k = 0"
  shows "build_rmsf base ls phi2s valid ! k = Some 1"
proof -
  let ?ws = "pixel_weights base valid"
  from assms(1) have pos: "\<forall>w\<in>set base. 0 < w"
    by (rule frequency_model_weights_positive)
  from assms(3) obtain c where "c < length base" "c < length valid" "valid ! c" by auto
  with pos have K: "0 < sum_list ?ws" by (rule sum_pixel_weights_positive)
  from assms(2) have "length ?ws \<le> length ls" by (simp add: length_pixel_weights)
  then have "rotate_and_sum 0 (reference_lambda2 ?ws ls) ?ws (map (\<lambda>l. 1) ls) ls
      = of_real (sum_list ?ws)"
    by (rule rotate_and_sum_unit_zero)
  with K assms(4,5) show ?thesis
    by (simp add: build_rmsf_def synthesize_def Let_def)
qed

text \<open>
  A run of the theorem: two channels with uniform weights, the second one flagged, and
  the doubled axis (-1, 0, 1).
\<close>

theorem build_rmsf_unit_peak_witness:
  "frequency_model [1, 2] Uniform None
     = Inr (map (\<lambda>f. (speed_of_light / f)\<^sup>2) [1, 2], [1, 1])
   \<and> build_rmsf [1, 1] (map (\<lambda>f. (speed_of_light / f)\<^sup>2) [1, 2]) [- 1, 0, 1] [True, False] ! 1
       = Some 1"
proof -
  have a: "frequency_model [1, 2] Uniform None
     = Inr (map (\<lambda>f. (speed_of_light / f)\<^sup>2) [1, 2], [1, 1])"
    by (simp add: frequency_model_def)
  have b: "length [1, 1::real] = length (map (\<lambda>f. (speed_of_light / f)\<^sup>2) [1, 2::real])"
    by simp
  have c: "\<exists>c<length [1, 1::real]. c < length [True, False] \<and> [True, False] ! c"
    by (rule exI [of _ 0]) simp
  have d: "1 < length [- 1, 0, 1::real]" by simp
  have e: "[- 1, 0, 1::real] ! 1 = 0" by simp
  from build_rmsf_unit_peak [OF a b c d e] a show ?thesis by simp
qed

subsection \<open>The dirty FDF in closed form\<close>

lemma sum_nonzero_weights:
  fixes f :: "nat \<Rightarrow> real"
  shows "(\<Sum>c\<in>{c\<in>{..<n}. f c \<noteq> 0}. f c * g c) = (\<Sum>c<n. f c * g c)"
proof -
  have "(\<Sum>c\<in>{c\<in>{..<n}. f c \<noteq> 0}. f c * g c) = (\<Sum>c<n. if f c \<noteq> 0 then f c * g c else 0)"
    by (rule sum.inter_filter) simp
  also have "\<dots> = (\<Sum>c<n. f c * g c)"
    by (intro sum.cong) auto
  finally show ?thesis .
qed

lemma sum_nonzero_weights_one:
  fixes f :: "nat \<Rightarrow> real"
  shows "(\<Sum>c\<in>{c\<in>{..<n}. f c \<noteq> 0}. f c) = (\<Sum>c<n. f c)"
  using sum_nonzero_weights [where f = f and n = n and g = "\<lambda>c. 1"] by simp

lemma weighted_sums_closed:
  "length ls = length ws \<Longrightarrow>
     weighted_sums ws ls = (\<Sum>c<length ws. ws ! c * ls ! c, \<Sum>c<length ws. ws ! c)"
proof (induction ws arbitrary: ls)
  case Nil
  then show ?case by simp
next
  case (Cons w ws)
  then obtain l ls' where "ls = l # ls'" "length ls' = length ws"
    by (cases ls) simp_all
  with Cons.IH [of ls'] show ?case
    by (simp add: sum.lessThan_Suc_shift del: sum.lessThan_Suc)
qed

lemma rotate_and_sum_closed:
  "length ps = length ws \<Longrightarrow> length ls = length ws \<Longrightarrow>
     rotate_and_sum phi l0 ws ps ls
       = (\<Sum>c<length ws. of_real (ws ! c) * ps ! c
            * exp (- 2 * \<i> * of_real (phi * (ls ! c - l0))))"
proof (induction ws arbitrary: ps ls)
  case Nil
  then show ?case by simp
next
  case (Cons w ws)
  then obtain p ps' l ls' where "ps = p # ps'" "length ps' = length ws"
      "ls = l # ls'" "length ls' = length ws"
    by (cases ps; cases ls) simp_all
  with Cons.IH [of ps' ls'] show ?case
    by (simp add: sum.lessThan_Suc_shift del: sum.lessThan_Suc)
qed

lemma sum_list_lessThan:
  fixes ws :: "real list"
  shows "sum_list ws = (\<Sum>c<length ws. ws ! c)"
  by (simp add: sum_list_sum_nth atLeast0LessThan)

text \<open>
  Claim C1. The model computes the sums by loops over the channels; the claim states them
  as sums over the channel index. With one sample, one weight and one wavelength squared
  per channel, the dirty FDF holds one entry per trial depth; if the weights sum to zero
  every entry is the sentinel, and otherwise the entry at depth \<open>phi_k\<close> is the normalised
  sum of the claim, with the reference wavelength squared taken over the channels of
  nonzero weight.
\<close>

theorem synthesize_closed_form:
  assumes "length ps = length ws" and "length ls = length ws"
  shows "length (synthesize ps ws ls phis) = length phis
     \<and> (\<forall>k<length phis. synthesize ps ws ls phis ! k =
         (if (\<Sum>c<length ws. ws ! c) = 0 then None
          else Some (1 / of_real (\<Sum>c<length ws. ws ! c)
            * (\<Sum>c<length ws. of_real (ws ! c) * ps ! c
                 * exp (- 2 * \<i> * of_real (phis ! k
                     * (ls ! c - (\<Sum>c\<in>{c\<in>{..<length ws}. ws ! c \<noteq> 0}. ws ! c * ls ! c)
                                  / (\<Sum>c\<in>{c\<in>{..<length ws}. ws ! c \<noteq> 0}. ws ! c))))))))"
proof -
  have l0: "reference_lambda2 ws ls
      = (\<Sum>c\<in>{c\<in>{..<length ws}. ws ! c \<noteq> 0}. ws ! c * ls ! c)
          / (\<Sum>c\<in>{c\<in>{..<length ws}. ws ! c \<noteq> 0}. ws ! c)"
    using assms(2)
    by (simp only: reference_lambda2_def weighted_sums_closed Let_def prod.case
        sum_nonzero_weights sum_nonzero_weights_one)
  have len: "length (synthesize ps ws ls phis) = length phis"
    by (simp add: synthesize_def Let_def)
  have "synthesize ps ws ls phis ! k =
         (if (\<Sum>c<length ws. ws ! c) = 0 then None
          else Some (1 / of_real (\<Sum>c<length ws. ws ! c)
            * (\<Sum>c<length ws. of_real (ws ! c) * ps ! c
                 * exp (- 2 * \<i> * of_real (phis ! k * (ls ! c - reference_lambda2 ws ls))))))"
    if "k < length phis" for k
    using that assms
    by (simp add: synthesize_def Let_def rotate_and_sum_closed sum_list_lessThan [symmetric])
  with len show ?thesis
    by (simp only: l0) simp
qed

text \<open>
  A run of the theorem: two channels of weight 1 with the samples 1 and 2, at depth 0.
\<close>

theorem synthesize_closed_form_witness:
  "length [1, 2::complex] = length [1, 1::real] \<and> length [1, 3::real] = length [1, 1::real]
   \<and> (0::nat) < length [0::real]
   \<and> synthesize [1, 2] [1, 1] [1, 3] [0] ! 0 = Some (3 / 2)"
proof -
  have a: "length [1, 2::complex] = length [1, 1::real]" by simp
  have b: "length [1, 3::real] = length [1, 1::real]" by simp
  from synthesize_closed_form [OF a b, of "[0]"] show ?thesis
    by (simp add: eval_nat_numeral)
qed

end
